theory Spec2Isabelle
  imports
    Main
    "HOL-Library.Sublist"
    "HOL-Library.Multiset"
    "HOL-Library.Product_Lexorder"
    "HOL-Library.Option_ord"
begin

section \<open>Values handed over by the JSON reader\<close>

text \<open>
  \<open>json.loads\<close> turns a document into Python values: \<open>None\<close>, booleans, integers,
  floats, strings, lists and dicts. A dict keeps its keys in insertion order and holds
  each key once, so it is an association list read with \<open>map_of\<close>. A float is
  carried as the text \<open>str\<close> gives for it (\<open>1.5\<close>, \<open>1e+20\<close>, \<open>nan\<close>); nothing
  below computes with floats. Strings are lists of characters with code points below
  256; the only decimal digits there are \<open>0\<close> to \<open>9\<close>.
\<close>

datatype json =
    JNull
  | JBool bool
  | JInt int
  | JFloat string
  | JStr string
  | JList "json list"
  | JObj "(string \<times> json) list"

type_synonym pydict = "(string \<times> json) list"

datatype exn =
    ValueError
  | KeyError string
  | IndexError
  | TypeError
  | AttributeError
  | JSONDecodeError

subsection \<open>Dictionaries\<close>

text \<open>\<open>d.get(k, default)\<close>, \<open>d.get(k)\<close> and \<open>d[k] = v\<close>. Assigning to a key that is already
  there replaces its value where it stands; a new key goes to the end.\<close>

definition dict_get_default :: "pydict \<Rightarrow> string \<Rightarrow> json \<Rightarrow> json" where
  "dict_get_default d k dflt = (case map_of d k of None \<Rightarrow> dflt | Some v \<Rightarrow> v)"

definition dict_get :: "pydict \<Rightarrow> string \<Rightarrow> json" where
  "dict_get d k = dict_get_default d k JNull"

fun dict_set :: "string \<Rightarrow> json \<Rightarrow> pydict \<Rightarrow> pydict" where
  "dict_set k v [] = [(k, v)]"
| "dict_set k v ((k', v') # d) =
     (if k' = k then (k, v) # d else (k', v') # dict_set k v d)"

subsection \<open>Strings\<close>

definition startswith :: "string \<Rightarrow> string \<Rightarrow> bool" where
  "startswith s p = (take (length p) s = p)"

definition lstrip_char :: "char \<Rightarrow> string \<Rightarrow> string" where
  "lstrip_char c s = dropWhile (\<lambda>x. x = c) s"

definition rstrip_char :: "char \<Rightarrow> string \<Rightarrow> string" where
  "rstrip_char c s = rev (dropWhile (\<lambda>x. x = c) (rev s))"

text \<open>\<open>s.replace(old, "")\<close>: every occurrence of \<open>old\<close>, found from the left without
  overlap, is taken out (only called with a non-empty \<open>old\<close>).\<close>

function replace_del :: "string \<Rightarrow> string \<Rightarrow> string" where
  "replace_del old [] = []"
| "replace_del old (c # cs) =
     (if old \<noteq> [] \<and> startswith (c # cs) old
      then replace_del old (drop (length old) (c # cs))
      else c # replace_del old cs)"
  by pat_completeness auto
termination
  by (relation "measure (\<lambda>(old, s). length s)") auto

definition is_digit :: "char \<Rightarrow> bool" where
  "is_digit c = (c \<in> set ''0123456789'')"

definition digit_val :: "char \<Rightarrow> nat" where
  "digit_val c = length (takeWhile (\<lambda>d. d \<noteq> c) ''0123456789'')"

definition nat_of_digits :: "string \<Rightarrow> nat" where
  "nat_of_digits ds = foldl (\<lambda>acc c. 10 * acc + digit_val c) 0 ds"

function nat_str :: "nat \<Rightarrow> string" where
  "nat_str n =
     (if n < 10 then [''0123456789'' ! n]
      else nat_str (n div 10) @ [''0123456789'' ! (n mod 10)])"
  by pat_completeness auto
termination
  by (relation "measure id") auto

declare nat_str.simps [simp del]

definition int_str :: "int \<Rightarrow> string" where
  "int_str i = (if i < 0 then CHR ''-'' # nat_str (nat (- i)) else nat_str (nat i))"

subsection \<open>\<open>repr\<close> and \<open>str\<close>\<close>

text \<open>\<open>repr\<close> of a string picks the quote (double quotes only when the text has a
  single quote and no double quote), escapes the quote, the backslash, tab, newline and
  carriage return, and writes the other characters that are not printable as
  \<open>\xNN\<close>: below 32, 127 to 160, and 173.\<close>

definition repr_quote :: "string \<Rightarrow> char" where
  "repr_quote s = (if CHR 0x27 \<in> set s \<and> CHR 0x22 \<notin> set s then CHR 0x22 else CHR 0x27)"

definition hex2 :: "nat \<Rightarrow> string" where
  "hex2 n = [''0123456789abcdef'' ! (n div 16), ''0123456789abcdef'' ! (n mod 16)]"

definition repr_char :: "char \<Rightarrow> char \<Rightarrow> string" where
  "repr_char q c =
     (if c = q \<or> c = CHR 0x5C then [CHR 0x5C, c]
      else if c = CHR 0x09 then [CHR 0x5C, CHR ''t'']
      else if c = CHR 0x0A then [CHR 0x5C, CHR ''n'']
      else if c = CHR 0x0D then [CHR 0x5C, CHR ''r'']
      else if (of_char c :: nat) < 32 \<or> (127 \<le> (of_char c :: nat) \<and> (of_char c :: nat) \<le> 160)
              \<or> (of_char c :: nat) = 173
        then [CHR 0x5C, CHR ''x''] @ hex2 (of_char c)
      else [c])"

definition repr_str :: "string \<Rightarrow> string" where
  "repr_str s = [repr_quote s] @ concat (map (repr_char (repr_quote s)) s) @ [repr_quote s]"

definition join :: "string \<Rightarrow> string list \<Rightarrow> string" where
  "join sep xs = (case xs of [] \<Rightarrow> [] | y # ys \<Rightarrow> y @ concat (map (\<lambda>z. sep @ z) ys))"

fun py_repr :: "json \<Rightarrow> string" where
  "py_repr JNull = ''None''"
| "py_repr (JBool b) = (if b then ''True'' else ''False'')"
| "py_repr (JInt i) = int_str i"
| "py_repr (JFloat f) = f"
| "py_repr (JStr s) = repr_str s"
| "py_repr (JList xs) = ''['' @ join '', '' (map py_repr xs) @ '']''"
| "py_repr (JObj kvs) =
     ''{'' @ join '', '' (map (\<lambda>kv. repr_str (fst kv) @ '': '' @ py_repr (snd kv)) kvs) @ ''}''"

definition py_str :: "json \<Rightarrow> string" where
  "py_str v = (case v of JStr s \<Rightarrow> s | _ \<Rightarrow> py_repr v)"

text \<open>Truth value of a value, as \<open>if x\<close> and \<open>x or y\<close> test it.\<close>

definition truthy :: "json \<Rightarrow> bool" where
  "truthy v =
     (case v of
        JNull \<Rightarrow> False
      | JBool b \<Rightarrow> b
      | JInt i \<Rightarrow> i \<noteq> 0
      | JFloat f \<Rightarrow> f \<noteq> ''0.0'' \<and> f \<noteq> ''-0.0''
      | JStr s \<Rightarrow> s \<noteq> []
      | JList xs \<Rightarrow> xs \<noteq> []
      | JObj kvs \<Rightarrow> kvs \<noteq> [])"

definition py_or :: "json \<Rightarrow> json \<Rightarrow> json" where
  "py_or x y = (if truthy x then x else y)"

subsection \<open>\<open>int\<close> of a string\<close>

text \<open>\<open>int(s)\<close> in base 10: white space around the text is dropped, one sign may
  lead, and the rest is digits, each pair of digits separated by at most one
  underscore. \<open>None\<close> stands for the \<open>ValueError\<close>. (The limit newer interpreters put
  on the number of digits is a setting of the interpreter and is not part of the model.)\<close>

definition is_space :: "char \<Rightarrow> bool" where
  "is_space c = (c \<in> set [CHR 0x09, CHR 0x0A, CHR 0x0B, CHR 0x0C, CHR 0x0D, CHR 0x20,
                           CHR 0x85, CHR 0xA0])"

definition strip_space :: "string \<Rightarrow> string" where
  "strip_space s = rev (dropWhile is_space (rev (dropWhile is_space s)))"

fun int_body :: "string \<Rightarrow> bool" where
  "int_body [] = False"
| "int_body [c] = is_digit c"
| "int_body (c # d # ds) =
     (is_digit c \<and> (if d = CHR ''_'' then int_body ds else int_body (d # ds)))"

definition unsigned_int :: "string \<Rightarrow> int option" where
  "unsigned_int b =
     (if int_body b then Some (int (nat_of_digits (filter is_digit b))) else None)"

definition py_int :: "string \<Rightarrow> int option" where
  "py_int s =
     (case strip_space s of
        [] \<Rightarrow> None
      | c # cs \<Rightarrow>
          if c = CHR ''-'' then map_option uminus (unsigned_int cs)
          else if c = CHR ''+'' then unsigned_int cs
          else unsigned_int (c # cs))"

section \<open>Helpers of both modes\<close>

text \<open>\<open>re.search(r'(\d+)', stem)\<close>: the leftmost, longest run of digits.\<close>

definition re_search_digits :: "string \<Rightarrow> string option" where
  "re_search_digits s =
     (let g = takeWhile is_digit (dropWhile (\<lambda>c. \<not> is_digit c) s)
      in if g = [] then None else Some g)"

definition guess_token_id_from_filename :: "string \<Rightarrow> int option" where
  "guess_token_id_from_filename stem =
     (case re_search_digits stem of None \<Rightarrow> None | Some g \<Rightarrow> py_int g)"

fun token_id_loop :: "pydict \<Rightarrow> string list \<Rightarrow> int option" where
  "token_id_loop d [] = None"
| "token_id_loop d (k # ks) =
     (case map_of d k of
        None \<Rightarrow> token_id_loop d ks
      | Some v \<Rightarrow>
          (case py_int (py_str v) of
             Some n \<Rightarrow> Some n
           | None \<Rightarrow> token_id_loop d ks))"

definition id_keys :: "string list" where
  "id_keys = [''token_id'', ''edition'', ''tokenId'', ''id'']"

definition get_token_id_from_json :: "pydict \<Rightarrow> int option" where
  "get_token_id_from_json d = token_id_loop d id_keys"

definition normalize_image :: "json \<Rightarrow> string option \<Rightarrow> string" where
  "normalize_image img image_prefix =
     (case img of
        JStr s \<Rightarrow>
          (case image_prefix of
             None \<Rightarrow> s
           | Some p \<Rightarrow>
               if p \<noteq> [] \<and> (startswith s ''ipfs://'' \<or> \<not> startswith s ''http'')
               then
                 (let ipfs_path = replace_del ''ipfs://'' s;
                      ipfs_path = (if startswith ipfs_path ''ipfs/''
                                   then drop 5 ipfs_path else ipfs_path)
                  in rstrip_char CHR ''/'' p @ ''/'' @ lstrip_char CHR ''/'' ipfs_path)
               else s)
      | _ \<Rightarrow> [])"

section \<open>Normalized items\<close>

text \<open>The dict both readers return, with its keys as fields (\<open>image\<close> is
  \<open>image_val\<close>, \<open>_stem\<close> is \<open>stem\<close>); \<open>item_get\<close> is \<open>it.get(c, "")\<close>.\<close>

record item =
  token_id :: "int option"
  name :: json
  description :: json
  image_val :: string
  image_raw :: json
  external_url :: json
  animation_url :: json
  background_color :: json
  youtube_url :: json
  traits :: pydict
  stem :: string

definition item_get :: "item \<Rightarrow> string \<Rightarrow> json" where
  "item_get it c =
     (if c = ''token_id'' then (case token_id it of None \<Rightarrow> JNull | Some n \<Rightarrow> JInt n)
      else if c = ''name'' then name it
      else if c = ''description'' then description it
      else if c = ''image'' then JStr (image_val it)
      else if c = ''image_raw'' then image_raw it
      else if c = ''external_url'' then external_url it
      else if c = ''animation_url'' then animation_url it
      else if c = ''background_color'' then background_color it
      else if c = ''youtube_url'' then youtube_url it
      else if c = ''traits'' then JObj (traits it)
      else if c = ''_stem'' then JStr (stem it)
      else JStr [])"

subsection \<open>Traits of one document\<close>

text \<open>The body of the loop over \<open>attributes\<close>, the same in both readers: an entry
  that is not a dict is passed over; \<open>t\<close> is the \<open>or\<close> of the three lookups, \<open>v\<close> the
  value or the empty string, and the assignment happens when \<open>t\<close> is true.\<close>

definition trait_step :: "pydict \<Rightarrow> json \<Rightarrow> pydict" where
  "trait_step trait_map a =
     (case a of
        JObj ad \<Rightarrow>
          (let t = py_or (py_or (dict_get ad ''trait_type'') (dict_get ad ''trait''))
                         (dict_get ad ''type'');
               v = dict_get_default ad ''value'' (JStr [])
           in if truthy t then dict_set (py_str t) v trait_map else trait_map)
      | _ \<Rightarrow> trait_map)"

definition extract_traits :: "pydict \<Rightarrow> pydict" where
  "extract_traits d =
     (case dict_get_default d ''attributes'' (JList []) of
        JList atts \<Rightarrow> foldl trait_step [] atts
      | _ \<Rightarrow> [])"

subsection \<open>Folder mode: one file\<close>

text \<open>A file is its stem and what reading it gave: \<open>None\<close> when the text cannot be
  read or is not JSON. A document that is not a dict fails too: \<open>k in d\<close> raises on a
  number, a boolean or \<open>None\<close>, and \<open>d.get\<close> on a string or a list.\<close>

definition parse_json_file ::
  "string \<Rightarrow> json option \<Rightarrow> string option \<Rightarrow> string option \<Rightarrow> exn + item" where
  "parse_json_file p_stem content id_from pfx =
     (case content of
        None \<Rightarrow> Inl JSONDecodeError
      | Some (JObj d) \<Rightarrow>
          (let tid_fn = guess_token_id_from_filename p_stem;
               tid_js = get_token_id_from_json d;
               tid = (if id_from = Some ''filename'' then tid_fn
                      else if id_from = Some ''json'' then tid_js
                      else (case tid_js of Some n \<Rightarrow> Some n | None \<Rightarrow> tid_fn))
           in Inr \<lparr> token_id = tid,
                    name = dict_get_default d ''name'' (JStr []),
                    description = dict_get_default d ''description'' (JStr []),
                    image_val = normalize_image (dict_get_default d ''image'' (JStr [])) pfx,
                    image_raw = dict_get_default d ''image'' (JStr []),
                    external_url = dict_get_default d ''external_url'' (JStr []),
                    animation_url = dict_get_default d ''animation_url'' (JStr []),
                    background_color = dict_get_default d ''background_color'' (JStr []),
                    youtube_url = dict_get_default d ''youtube_url'' (JStr []),
                    traits = extract_traits d,
                    stem = p_stem \<rparr>)
      | Some (JStr _) \<Rightarrow> Inl AttributeError
      | Some (JList _) \<Rightarrow> Inl AttributeError
      | Some _ \<Rightarrow> Inl TypeError)"

subsection \<open>Metadata mode: one aggregated document\<close>

datatype abort = SystemExit string | Uncaught exn | Not_Modelled

definition normalize_one :: "string option \<Rightarrow> pydict \<Rightarrow> string \<Rightarrow> item" where
  "normalize_one pfx obj key_for_stem =
     (let tid = get_token_id_from_json obj
      in \<lparr> token_id = tid,
            name = dict_get_default obj ''name'' (JStr []),
            description = dict_get_default obj ''description'' (JStr []),
            image_val = normalize_image (dict_get_default obj ''image'' (JStr [])) pfx,
            image_raw = dict_get_default obj ''image'' (JStr []),
            external_url = dict_get_default obj ''external_url'' (JStr []),
            animation_url = dict_get_default obj ''animation_url'' (JStr []),
            background_color = dict_get_default obj ''background_color'' (JStr []),
            youtube_url = dict_get_default obj ''youtube_url'' (JStr []),
            traits = extract_traits obj,
            stem = (if key_for_stem \<noteq> [] then key_for_stem
                    else (case tid of Some n \<Rightarrow> int_str n | None \<Rightarrow> ''item'')) \<rparr>)"

text \<open>The loop over a top-level list, \<open>idx\<close> counting every entry from 1.\<close>

fun load_list :: "string option \<Rightarrow> nat \<Rightarrow> json list \<Rightarrow> item list" where
  "load_list pfx idx [] = []"
| "load_list pfx idx (obj # rest) =
     (case obj of
        JObj d \<Rightarrow> normalize_one pfx d (nat_str idx) # load_list pfx (Suc idx) rest
      | _ \<Rightarrow> load_list pfx (Suc idx) rest)"

text \<open>The loop over a top-level dict: an object without \<open>token_id\<close> gets the key as
  its \<open>token_id\<close> when the key is an integer.\<close>

fun load_dict :: "string option \<Rightarrow> pydict \<Rightarrow> item list" where
  "load_dict pfx [] = []"
| "load_dict pfx ((k, obj) # rest) =
     (case obj of
        JObj d \<Rightarrow>
          (let d' = (if map_of d ''token_id'' = None
                     then (case py_int k of
                             Some n \<Rightarrow> dict_set ''token_id'' (JInt n) d
                           | None \<Rightarrow> d)
                     else d)
           in normalize_one pfx d' k # load_dict pfx rest)
      | _ \<Rightarrow> load_dict pfx rest)"

definition load_metadata_file :: "json option \<Rightarrow> string option \<Rightarrow> abort + item list" where
  "load_metadata_file content pfx =
     (case content of
        None \<Rightarrow> Inl (Uncaught JSONDecodeError)
      | Some (JList xs) \<Rightarrow> Inr (load_list pfx 1 xs)
      | Some (JObj kvs) \<Rightarrow> Inr (load_dict pfx kvs)
      | Some _ \<Rightarrow>
          Inl (SystemExit ''Unsupported metadata.json structure (must be list or dict).''))"

section \<open>The run\<close>

record args =
  metadata :: "string option"
  emit_per_file :: bool
  do_sort :: bool
  id_from :: "string option"
  image_prefix :: "string option"
  aggregate :: "string option"
  no_header :: bool
  only_traits :: bool
  fields_arg :: "string list option"
  filename_col :: "string option"
  filename_tmpl :: string

subsection \<open>Trait columns and header\<close>

text \<open>The two nested loops that fill \<open>all_traits_order\<close> and \<open>trait_seen\<close>.\<close>

definition see_trait :: "string list \<times> string set \<Rightarrow> string \<Rightarrow> string list \<times> string set" where
  "see_trait st t =
     (case st of (order, seen) \<Rightarrow>
        if t \<notin> seen then (order @ [t], insert t seen) else (order, seen))"

definition see_item :: "string list \<times> string set \<Rightarrow> item \<Rightarrow> string list \<times> string set" where
  "see_item st it = foldl see_trait st (map fst (traits it))"

definition all_traits_order :: "item list \<Rightarrow> string list" where
  "all_traits_order items = fst (foldl see_item ([], {}) items)"

definition default_base :: "string list" where
  "default_base = [''token_id'', ''name'', ''description'', ''image'', ''external_url'',
                   ''animation_url'', ''background_color'', ''youtube_url'']"

definition base_cols :: "args \<Rightarrow> string list" where
  "base_cols a =
     (if only_traits a then []
      else (case fields_arg a of
              Some (c # cs) \<Rightarrow> filter (\<lambda>x. x \<in> set default_base) (c # cs)
            | _ \<Rightarrow> default_base))"

definition filename_col_name :: "args \<Rightarrow> string option" where
  "filename_col_name a =
     (case filename_col a of Some (c # cs) \<Rightarrow> Some (c # cs) | _ \<Rightarrow> None)"

definition header :: "args \<Rightarrow> item list \<Rightarrow> string list" where
  "header a items =
     base_cols a
     @ (case filename_col_name a of Some n \<Rightarrow> [n] | None \<Rightarrow> [])
     @ all_traits_order items"

subsection \<open>The filename column\<close>

text \<open>What \<open>urlparse\<close> and \<open>pathlib\<close> compute depends on the interpreter and the
  platform; they are parameters: the scheme and path \<open>urlparse\<close> finds (\<open>None\<close> when it
  raises), \<open>Path(s).name\<close> and \<open>Path(s).suffix\<close>.\<close>

record pylib =
  urlparse :: "string \<Rightarrow> (string \<times> string) option"
  path_name :: "string \<Rightarrow> string"
  path_suffix :: "string \<Rightarrow> string"

definition basename_from_url_or_path :: "pylib \<Rightarrow> json \<Rightarrow> string" where
  "basename_from_url_or_path L s =
     (case s of
        JStr t \<Rightarrow>
          if t = [] then []
          else (case urlparse L t of
                  Some (scheme, path) \<Rightarrow>
                    if scheme \<noteq> [] \<and> path \<noteq> [] then path_name L path else path_name L t
                | None \<Rightarrow> path_name L t)
      | _ \<Rightarrow> [])"

definition ext_from_name :: "pylib \<Rightarrow> string \<Rightarrow> string \<Rightarrow> string" where
  "ext_from_name L nm dflt = (let e = path_suffix L nm in if e \<noteq> [] then e else dflt)"

text \<open>The result of a step that can raise. \<open>Unmodelled\<close> marks the templates whose
  meaning is left open here: replacement fields with a conversion (\<open>!r\<close>), a format
  specification (\<open>:>5\<close>), an index (\<open>[0]\<close>) or an attribute (\<open>.upper\<close>), and positional
  indexes of ten digits or more.\<close>

datatype 'a run = Done 'a | Raise exn | Unmodelled

fun emit :: "string \<Rightarrow> string run \<Rightarrow> string run" where
  "emit s (Done t) = Done (s @ t)"
| "emit s (Raise e) = Raise e"
| "emit s Unmodelled = Unmodelled"

text \<open>The object a field name stands for, formatted with the empty specification.
  The name up to the first dot is looked up first: the empty name and a number are
  positions in the (empty) tuple of positional arguments, anything else is a keyword.\<close>

definition get_field :: "(string \<times> json) list \<Rightarrow> string \<Rightarrow> string run" where
  "get_field kwargs field_name =
     (let first = takeWhile (\<lambda>c. c \<noteq> CHR ''.'') field_name
      in if first = [] then Raise IndexError
         else if list_all is_digit first
           then (if length first < 10 then Raise IndexError else Unmodelled)
         else (case map_of kwargs first of
                 None \<Rightarrow> Raise (KeyError first)
               | Some v \<Rightarrow> if first = field_name then Done (py_str v) else Unmodelled))"

text \<open>\<open>template.format(**kwargs)\<close>, read from the left. The second argument is
  \<open>None\<close> in literal text and holds the characters of the field name read so far
  (last one first) inside a replacement field.\<close>

fun format_scan :: "(string \<times> json) list \<Rightarrow> string option \<Rightarrow> string \<Rightarrow> string run" where
  "format_scan kwargs None [] = Done []"
| "format_scan kwargs None [c] =
     (if c = CHR ''{'' \<or> c = CHR ''}'' then Raise ValueError else Done [c])"
| "format_scan kwargs None (c # d # ds) =
     (if c = CHR ''}''
        then (if d = CHR ''}'' then emit ''}'' (format_scan kwargs None ds)
              else Raise ValueError)
      else if c = CHR ''{''
        then (if d = CHR ''{'' then emit ''{'' (format_scan kwargs None ds)
              else format_scan kwargs (Some []) (d # ds))
      else emit [c] (format_scan kwargs None (d # ds)))"
| "format_scan kwargs (Some acc) [] = Raise ValueError"
| "format_scan kwargs (Some acc) (c # cs) =
     (if c = CHR ''{'' then Raise ValueError
      else if c = CHR ''}''
        then (case get_field kwargs (rev acc) of
                Done v \<Rightarrow> emit v (format_scan kwargs None cs)
              | Raise e \<Rightarrow> Raise e
              | Unmodelled \<Rightarrow> Unmodelled)
      else if c = CHR ''['' \<or> c = CHR ''!'' \<or> c = CHR '':'' then Unmodelled
      else format_scan kwargs (Some (c # acc)) cs)"

definition str_format :: "string \<Rightarrow> (string \<times> json) list \<Rightarrow> string run" where
  "str_format template kwargs = format_scan kwargs None template"

definition render_filename_col ::
  "pylib \<Rightarrow> string \<Rightarrow> int option \<Rightarrow> string \<Rightarrow> json \<Rightarrow> string run" where
  "render_filename_col L template tid item_stem img_raw =
     (let image_name = basename_from_url_or_path L img_raw;
          image_ext = ext_from_name L image_name ''.png'';
          safe_tid = (case tid of None \<Rightarrow> [] | Some n \<Rightarrow> int_str n)
      in str_format template
           [(''token_id'', JStr safe_tid),
            (''stem'', JStr item_stem),
            (''image'', py_or img_raw (JStr [])),
            (''image_name'', JStr image_name),
            (''image_ext'', JStr (if image_ext \<noteq> [] then image_ext else ''.png''))])"

subsection \<open>Rows and files\<close>

text \<open>A row is the list handed to \<open>writer.writerow\<close>; a file is its path and the rows
  written to it, the header row first unless \<open>--no-header\<close> is given.\<close>

definition project_row ::
  "pylib \<Rightarrow> args \<Rightarrow> string list \<Rightarrow> string list \<Rightarrow> item \<Rightarrow> json list run" where
  "project_row L a cols order it =
     (let row = map (item_get it) cols;
          cells = map (\<lambda>t. dict_get_default (traits it) t (JStr [])) order
      in case filename_col_name a of
           None \<Rightarrow> Done (row @ cells)
         | Some _ \<Rightarrow>
             (case render_filename_col L (filename_tmpl a) (token_id it) (stem it) (image_raw it) of
                Done fn \<Rightarrow> Done (row @ [JStr fn] @ cells)
              | Raise e \<Rightarrow> Raise e
              | Unmodelled \<Rightarrow> Unmodelled))"

definition header_rows :: "args \<Rightarrow> string list \<Rightarrow> json list list" where
  "header_rows a hdr = (if no_header a then [] else [map JStr hdr])"

datatype status = Finished | Aborted abort

text \<open>The per-item files, one after the other. A row that cannot be rendered ends
  the run inside the \<open>with\<close> block, which leaves that file with what was written
  before.\<close>

fun write_per_file ::
  "pylib \<Rightarrow> args \<Rightarrow> string list \<Rightarrow> string list \<Rightarrow> string list \<Rightarrow> item list
   \<Rightarrow> (string \<times> json list list) list \<times> status" where
  "write_per_file L a hdr cols order [] = ([], Finished)"
| "write_per_file L a hdr cols order (it # rest) =
     (let out_file = ''csv/'' @ stem it @ ''.csv''
      in case project_row L a cols order it of
           Done row \<Rightarrow>
             (let (fs, st) = write_per_file L a hdr cols order rest
              in ((out_file, header_rows a hdr @ [row]) # fs, st))
         | Raise e \<Rightarrow> ([(out_file, header_rows a hdr)], Aborted (Uncaught e))
         | Unmodelled \<Rightarrow> ([(out_file, header_rows a hdr)], Aborted Not_Modelled))"

text \<open>The rows of the aggregated file, up to the first one that cannot be rendered.\<close>

fun write_rows ::
  "pylib \<Rightarrow> args \<Rightarrow> string list \<Rightarrow> string list \<Rightarrow> item list \<Rightarrow> json list list \<times> status" where
  "write_rows L a cols order [] = ([], Finished)"
| "write_rows L a cols order (it # rest) =
     (case project_row L a cols order it of
        Done row \<Rightarrow>
          (let (rs, st) = write_rows L a cols order rest in (row # rs, st))
      | Raise e \<Rightarrow> ([], Aborted (Uncaught e))
      | Unmodelled \<Rightarrow> ([], Aborted Not_Modelled))"

text \<open>\<open>agg_items.sort(key=lambda x: (x["token_id"] is None, x["token_id"]))\<close>: a stable
  sort on the key. Keys are compared as pairs, the second component only between keys
  with the same first one.\<close>

definition sort_key_of :: "item \<Rightarrow> bool \<times> int option" where
  "sort_key_of x = (token_id x = None, token_id x)"

definition agg_items :: "args \<Rightarrow> item list \<Rightarrow> item list" where
  "agg_items a items = (if do_sort a then sort_key sort_key_of items else items)"

definition agg_path :: "args \<Rightarrow> bool \<Rightarrow> string option" where
  "agg_path a folder_mode =
     (case aggregate a of
        Some (c # cs) \<Rightarrow> Some (c # cs)
      | _ \<Rightarrow> if \<not> folder_mode then Some ''metadata.csv'' else None)"

record outcome =
  warned :: "string list"
  written :: "(string \<times> json list list) list"
  final :: status

text \<open>Everything after the items are read: header, per-item files, aggregated file.\<close>

definition write_outputs :: "pylib \<Rightarrow> args \<Rightarrow> bool \<Rightarrow> item list \<Rightarrow> (string \<times> json list list) list \<times> status" where
  "write_outputs L a folder_mode items =
     (let order = all_traits_order items;
          cols = base_cols a;
          hdr = header a items;
          (per_file, st) = (if folder_mode \<or> emit_per_file a
                            then write_per_file L a hdr cols order items
                            else ([], Finished))
      in case st of
           Aborted r \<Rightarrow> (per_file, Aborted r)
         | Finished \<Rightarrow>
             (case agg_path a folder_mode of
                None \<Rightarrow> (per_file, Finished)
              | Some path \<Rightarrow>
                  (let (rows, st') = write_rows L a cols order (agg_items a items)
                   in (per_file @ [(path, header_rows a hdr @ rows)], st'))))"

subsection \<open>Reading the inputs\<close>

text \<open>The file system as the run finds it: the \<open>.json\<close> files of the input folder in
  the order \<open>read_all_json\<close> returns them, each with its stem and content, and the
  content of the file at a path (\<open>None\<close> when there is no such file). Writing a file
  is taken to succeed. A warning is recorded as the stem of the file it names; the
  message of the exit for an empty folder is cut before the path of the folder.\<close>

record env =
  json_dir :: "(string \<times> json option) list"
  file_at :: "string \<Rightarrow> json option option"

fun read_folder ::
  "string option \<Rightarrow> string option \<Rightarrow> (string \<times> json option) list \<Rightarrow> string list \<times> item list" where
  "read_folder idf pfx [] = ([], [])"
| "read_folder idf pfx ((p_stem, content) # rest) =
     (let (ws, its) = read_folder idf pfx rest
      in case parse_json_file p_stem content idf pfx of
           Inl e \<Rightarrow> (p_stem # ws, its)
         | Inr it \<Rightarrow> (ws, it # its))"

definition main :: "pylib \<Rightarrow> args \<Rightarrow> env \<Rightarrow> outcome" where
  "main L a e =
     (case metadata a of
        Some (c # cs) \<Rightarrow>
          (case file_at e (c # cs) of
             None \<Rightarrow> \<lparr> warned = [], written = [],
                       final = Aborted (SystemExit (''metadata file not found: '' @ c # cs)) \<rparr>
           | Some content \<Rightarrow>
               (case load_metadata_file content (image_prefix a) of
                  Inl r \<Rightarrow> \<lparr> warned = [], written = [], final = Aborted r \<rparr>
                | Inr items \<Rightarrow>
                    (let (fs, st) = write_outputs L a False items
                     in \<lparr> warned = [], written = fs, final = st \<rparr>)))
      | _ \<Rightarrow>
          if json_dir e = []
          then \<lparr> warned = [], written = [],
                 final = Aborted (SystemExit ''No .json files found'') \<rparr>
          else (let (ws, items) = read_folder (id_from a) (image_prefix a) (json_dir e);
                    (fs, st) = write_outputs L a True items
                in \<lparr> warned = ws, written = fs, final = st \<rparr>))"

section \<open>The statements of the specification\<close>

text \<open>The definitions of this section say in HOL what the specification says in
  words, or name the inputs of worked examples; the theorems below compare the program
  with them. A few give a name to a part of the program, which is said where they
  stand.\<close>

subsection \<open>Worked inputs\<close>

text \<open>The options as \<open>argparse\<close> leaves them when none is given, an item with
  every field at its default, and the library on texts without URL or path syntax,
  where \<open>urlparse\<close> finds no scheme and the path's name is the text itself.\<close>

definition default_args :: args where
  "default_args =
     \<lparr> metadata = None, emit_per_file = False, do_sort = True, id_from = None,
       image_prefix = None, aggregate = None, no_header = False, only_traits = False,
       fields_arg = None, filename_col = None, filename_tmpl = ''{token_id}.png'' \<rparr>"

definition blank_item :: item where
  "blank_item =
     \<lparr> token_id = None, name = JStr [], description = JStr [], image_val = [],
       image_raw = JStr [], external_url = JStr [], animation_url = JStr [],
       background_color = JStr [], youtube_url = JStr [], traits = [], stem = ''item'' \<rparr>"

definition simple_lib :: pylib where
  "simple_lib =
     \<lparr> urlparse = (\<lambda>s. Some ([], s)), path_name = (\<lambda>s. s), path_suffix = (\<lambda>s. []) \<rparr>"

subsection \<open>Token ids\<close>

text \<open>The first present, integer-parseable value among the keys, in their order.\<close>

definition first_parseable :: "pydict \<Rightarrow> string list \<Rightarrow> int option" where
  "first_parseable d ks =
     (case List.map_filter
             (\<lambda>k. case map_of d k of None \<Rightarrow> None | Some v \<Rightarrow> py_int (py_str v)) ks of
        [] \<Rightarrow> None
      | n # _ \<Rightarrow> Some n)"

subsection \<open>Image values\<close>

text \<open>The rewritten image as the specification words it: a leading \<open>ipfs://\<close> is
  stripped, then a leading \<open>ipfs/\<close>, then leading slashes.\<close>

definition strip_lead :: "string \<Rightarrow> string \<Rightarrow> string" where
  "strip_lead p s = (if startswith s p then drop (length p) s else s)"

definition claimed_rewrite :: "string \<Rightarrow> string \<Rightarrow> string" where
  "claimed_rewrite p s =
     rstrip_char CHR ''/'' p @ ''/''
     @ lstrip_char CHR ''/'' (strip_lead ''ipfs/'' (strip_lead ''ipfs://'' s))"

subsection \<open>Traits\<close>

text \<open>The value of the first key that is present, the first value that is true, the
  name and value an attribute entry stands for, and the values a list of entries gives
  for one name, in order.\<close>

definition trait_keys :: "string list" where
  "trait_keys = [''trait_type'', ''trait'', ''type'']"

definition first_present :: "pydict \<Rightarrow> string list \<Rightarrow> json option" where
  "first_present ad ks =
     (case List.map_filter (map_of ad) ks of [] \<Rightarrow> None | t # _ \<Rightarrow> Some t)"

definition first_truthy :: "pydict \<Rightarrow> string list \<Rightarrow> json option" where
  "first_truthy ad ks =
     (case filter truthy (List.map_filter (map_of ad) ks) of [] \<Rightarrow> None | t # _ \<Rightarrow> Some t)"

definition entry_trait :: "json \<Rightarrow> (string \<times> json) option" where
  "entry_trait a =
     (case a of
        JObj ad \<Rightarrow>
          (case first_truthy ad trait_keys of
             None \<Rightarrow> None
           | Some t \<Rightarrow> Some (py_str t, dict_get_default ad ''value'' (JStr [])))
      | _ \<Rightarrow> None)"

definition occurrences :: "json list \<Rightarrow> string \<Rightarrow> json list" where
  "occurrences atts n =
     map snd (filter (\<lambda>nv. fst nv = n) (List.map_filter entry_trait atts))"

definition dup_atts :: "json list" where
  "dup_atts = [JObj [(''trait_type'', JStr ''A''), (''value'', JInt 1)],
               JObj [(''trait_type'', JStr ''A''), (''value'', JInt 2)]]"

definition aba_atts :: "json list" where
  "aba_atts = [JObj [(''trait_type'', JStr ''A''), (''value'', JInt 1)],
               JObj [(''trait_type'', JStr ''B''), (''value'', JInt 2)],
               JObj [(''trait_type'', JStr ''A''), (''value'', JInt 3)]]"

definition hat_entry :: pydict where
  "hat_entry = [(''trait_type'', JStr ''''), (''trait'', JStr ''Hat''), (''value'', JStr ''Cap'')]"

text \<open>All trait names of a batch: items in batch order, each item's names in its own
  order.\<close>

definition trait_names :: "item list \<Rightarrow> string list" where
  "trait_names items = concat (map (\<lambda>it. map fst (traits it)) items)"

subsection \<open>Sorted output\<close>




subsection \<open>Templates\<close>

text \<open>A template built from literal text and simple replacement fields: braces of the
  text are doubled, a field is its name in braces. A simple name has none of the
  characters that start an index, an attribute, a conversion or a format specification
  and, when it is made of digits only, fewer than ten of them.\<close>

datatype piece = Lit string | Var string

definition escape_braces :: "string \<Rightarrow> string" where
  "escape_braces s =
     concat (map (\<lambda>c. if c = CHR ''{'' \<or> c = CHR ''}'' then [c, c] else [c]) s)"

fun template_of :: "piece list \<Rightarrow> string" where
  "template_of [] = []"
| "template_of (Lit s # ps) = escape_braces s @ template_of ps"
| "template_of (Var n # ps) = CHR ''{'' # n @ CHR ''}'' # template_of ps"

fun vars_of :: "piece list \<Rightarrow> string list" where
  "vars_of [] = []"
| "vars_of (Lit s # ps) = vars_of ps"
| "vars_of (Var n # ps) = n # vars_of ps"

definition simple_name :: "string \<Rightarrow> bool" where
  "simple_name n =
     (list_all (\<lambda>c. c \<notin> set ''{}[]!:.'') n \<and> (\<not> list_all is_digit n \<or> length n < 10))"

fun fill_in :: "(string \<Rightarrow> string) \<Rightarrow> piece list \<Rightarrow> string" where
  "fill_in val [] = []"
| "fill_in val (Lit s # ps) = s @ fill_in val ps"
| "fill_in val (Var n # ps) = val n @ fill_in val ps"

text \<open>The five variables and what each stands for.\<close>

definition var_names :: "string list" where
  "var_names = [''token_id'', ''stem'', ''image'', ''image_name'', ''image_ext'']"

definition var_value :: "pylib \<Rightarrow> int option \<Rightarrow> string \<Rightarrow> json \<Rightarrow> string \<Rightarrow> string" where
  "var_value L tid item_stem img_raw n =
     (if n = ''token_id'' then (case tid of None \<Rightarrow> [] | Some i \<Rightarrow> int_str i)
      else if n = ''stem'' then item_stem
      else if n = ''image'' then (if truthy img_raw then py_str img_raw else [])
      else if n = ''image_name'' then basename_from_url_or_path L img_raw
      else if n = ''image_ext''
        then (if path_suffix L (basename_from_url_or_path L img_raw) = [] then ''.png''
              else path_suffix L (basename_from_url_or_path L img_raw))
      else [])"

text \<open>Parts of the program, named: the keyword arguments \<open>render_filename_col\<close>
  passes to \<open>format\<close>, as one list, and the text a keyword formats to.\<close>

definition kw_text :: "(string \<times> json) list \<Rightarrow> string \<Rightarrow> string" where
  "kw_text kw n = (case map_of kw n of Some v \<Rightarrow> py_str v | None \<Rightarrow> [])"

definition render_kwargs :: "pylib \<Rightarrow> int option \<Rightarrow> string \<Rightarrow> json \<Rightarrow> (string \<times> json) list" where
  "render_kwargs L tid item_stem img_raw =
     [(''token_id'', JStr (case tid of None \<Rightarrow> [] | Some n \<Rightarrow> int_str n)),
      (''stem'', JStr item_stem),
      (''image'', py_or img_raw (JStr [])),
      (''image_name'', JStr (basename_from_url_or_path L img_raw)),
      (''image_ext'',
         JStr (if ext_from_name L (basename_from_url_or_path L img_raw) ''.png'' \<noteq> []
               then ext_from_name L (basename_from_url_or_path L img_raw) ''.png''
               else ''.png''))]"

subsection \<open>Batches\<close>

text \<open>Whether a value is a JSON object, and the items \<open>main\<close> has read when it
  starts to write (none when it ends before).\<close>

definition is_obj :: "json \<Rightarrow> bool" where
  "is_obj v = (case v of JObj _ \<Rightarrow> True | _ \<Rightarrow> False)"

definition batch_of :: "args \<Rightarrow> env \<Rightarrow> item list" where
  "batch_of a e =
     (case metadata a of
        Some (c # cs) \<Rightarrow>
          (case file_at e (c # cs) of
             None \<Rightarrow> []
           | Some content \<Rightarrow>
               (case load_metadata_file content (image_prefix a) of
                  Inl r \<Rightarrow> []
                | Inr items \<Rightarrow> items))
      | _ \<Rightarrow> snd (read_folder (id_from a) (image_prefix a) (json_dir e)))"

text \<open>Parts of the program, named: the per-item pass of \<open>write_outputs\<close>, and the
  number of cells the filename column takes in a row.\<close>

definition per_file_part ::
  "pylib \<Rightarrow> args \<Rightarrow> bool \<Rightarrow> item list \<Rightarrow> (string \<times> json list list) list \<times> status" where
  "per_file_part L a fm items =
     (if fm \<or> emit_per_file a
      then write_per_file L a (header a items) (base_cols a) (all_traits_order items) items
      else ([], Finished))"

definition fn_cells :: "args \<Rightarrow> nat" where
  "fn_cells a = (case filename_col_name a of None \<Rightarrow> 0 | Some n \<Rightarrow> 1)"

text \<open>Worked runs: a folder of two documents with one trait each, read with
  \<open>--only-traits --aggregate o.csv\<close>; a folder whose second file cannot be parsed; an
  aggregated file that cannot be parsed.\<close>

definition two_docs :: env where
  "two_docs =
     \<lparr> json_dir =
         [(''1'', Some (JObj [(''attributes'',
                    JList [JObj [(''trait_type'', JStr ''A''), (''value'', JStr ''x'')]])])),
          (''2'', Some (JObj [(''attributes'',
                    JList [JObj [(''trait_type'', JStr ''B''), (''value'', JStr ''y'')]])]))],
       file_at = (\<lambda>p. None) \<rparr>"

definition traits_only_args :: args where
  "traits_only_args = default_args\<lparr>only_traits := True, aggregate := Some ''o.csv''\<rparr>"

definition three_files :: env where
  "three_files =
     \<lparr> json_dir = [(''1'', Some (JObj [])), (''bad'', None), (''3'', Some (JObj []))],
       file_at = (\<lambda>p. None) \<rparr>"

definition broken_metadata :: env where
  "broken_metadata = \<lparr> json_dir = [], file_at = (\<lambda>p. Some None) \<rparr>"

section \<open>Lists without duplicates\<close>

lemma remdups_drop_seen: "t \<in> set ys \<Longrightarrow> remdups (xs @ t # ys) = remdups (xs @ ys)"
  by (induction xs) auto

section \<open>Token id resolution\<close>

lemma token_id_loop_first: "token_id_loop d ks = first_parseable d ks"
  by (induction ks) (auto simp: first_parseable_def map_filter_simps split: option.splits)

lemma is_digit_not_space: "is_digit c \<Longrightarrow> \<not> is_space c"
  by (auto simp: is_digit_def is_space_def)

lemma is_digit_not_sign: "is_digit c \<Longrightarrow> c \<noteq> CHR ''-'' \<and> c \<noteq> CHR ''+'' \<and> c \<noteq> CHR ''_''"
  by (auto simp: is_digit_def)

lemma int_body_digits: "ds \<noteq> [] \<Longrightarrow> \<forall>c\<in>set ds. is_digit c \<Longrightarrow> int_body ds"
  by (induction ds rule: int_body.induct) (auto dest: is_digit_not_sign)

lemma strip_space_digits:
  assumes "ds \<noteq> []" "\<forall>c\<in>set ds. is_digit c"
  shows "strip_space ds = ds"
proof -
  from assms obtain c cs where ds: "ds = c # cs" by (cases ds) auto
  with assms have "\<not> is_space c" by (simp add: is_digit_not_space)
  then have 1: "dropWhile is_space ds = ds" by (simp add: ds)
  from assms have "rev ds \<noteq> []" "\<not> is_space (hd (rev ds))"
    by (auto simp: hd_rev is_digit_not_space)
  then have "dropWhile is_space (rev ds) = rev ds"
    by (cases "rev ds") auto
  with 1 show ?thesis by (simp add: strip_space_def)
qed

lemma py_int_digits:
  assumes "ds \<noteq> []" "\<forall>c\<in>set ds. is_digit c"
  shows "py_int ds = Some (int (nat_of_digits ds))"
proof -
  from assms obtain c cs where ds: "ds = c # cs" by (cases ds) auto
  have f: "filter is_digit ds = ds" using assms by simp
  have "unsigned_int ds = Some (int (nat_of_digits ds))"
    using int_body_digits[OF assms] f by (simp add: unsigned_int_def)
  moreover have "c \<noteq> CHR ''-''" "c \<noteq> CHR ''+''" using assms ds is_digit_not_sign by auto
  ultimately show ?thesis
    using strip_space_digits[OF assms] by (simp add: py_int_def ds)
qed

lemma re_search_digits_none:
  assumes "\<forall>c\<in>set s. \<not> is_digit c"
  shows "re_search_digits s = None"
proof -
  have h: "dropWhile (\<lambda>c. \<not> is_digit c) s = []" using assms by simp
  show ?thesis unfolding re_search_digits_def h by simp
qed

lemma re_search_digits_run:
  assumes "\<forall>c\<in>set pre. \<not> is_digit c" "run \<noteq> []" "\<forall>c\<in>set run. is_digit c"
    "post = [] \<or> \<not> is_digit (hd post)"
  shows "re_search_digits (pre @ run @ post) = Some run"
proof -
  from assms obtain c cs where run: "run = c # cs" by (cases run) auto
  have "dropWhile (\<lambda>c. \<not> is_digit c) (pre @ run @ post) = run @ post"
    using assms by (simp add: run dropWhile_append)
  moreover have "takeWhile is_digit (run @ post) = run"
    using assms by (cases post) (auto simp: takeWhile_append)
  ultimately show ?thesis using assms by (simp add: re_search_digits_def)
qed

lemma py_int_7: "py_int ''7'' = Some 7"
  by (simp add: py_int_def strip_space_def is_space_def unsigned_int_def is_digit_def
      nat_of_digits_def digit_val_def)

text \<open>
  Claim C5. From the JSON the token id is the first present, integer-parseable value
  among \<open>token_id\<close>, \<open>edition\<close>, \<open>tokenId\<close>, \<open>id\<close>, in that order, and there is none
  when no key has one. A folder-mode file with an object inside is always read; its
  token id is the id of the file name in \<open>filename\<close> mode, the id of the JSON in
  \<open>json\<close> mode, and otherwise the id of the JSON, or of the file name when the JSON
  gives none. The id of a file name is absent when the stem has no digit, and is the
  decimal value of the first run of digits otherwise: of \<open>run\<close> when the stem is
  \<open>pre @ run @ post\<close> with no digit in \<open>pre\<close> and no digit at the head of \<open>post\<close>. A
  document with \<open>token_id: "7"\<close> and \<open>edition: 3\<close> has the id 7.
\<close>

theorem id_resolution:
  "get_token_id_from_json d = first_parseable d [''token_id'', ''edition'', ''tokenId'', ''id'']
   \<and> (\<exists>it. parse_json_file p_stem (Some (JObj d)) idf pfx = Inr it
          \<and> token_id it =
              (if idf = Some ''filename'' then guess_token_id_from_filename p_stem
               else if idf = Some ''json'' then get_token_id_from_json d
               else (case get_token_id_from_json d of
                       Some n \<Rightarrow> Some n
                     | None \<Rightarrow> guess_token_id_from_filename p_stem)))
   \<and> ((\<forall>c\<in>set p_stem. \<not> is_digit c) \<longrightarrow> guess_token_id_from_filename p_stem = None)
   \<and> ((\<forall>c\<in>set pre. \<not> is_digit c) \<and> run \<noteq> [] \<and> (\<forall>c\<in>set run. is_digit c)
        \<and> (post = [] \<or> \<not> is_digit (hd post))
       \<longrightarrow> guess_token_id_from_filename (pre @ run @ post) = Some (int (nat_of_digits run)))
   \<and> get_token_id_from_json ((''token_id'', JStr ''7'') # (''edition'', JInt 3) # rest) = Some 7"
proof (intro conjI impI)
  show "get_token_id_from_json d = first_parseable d [''token_id'', ''edition'', ''tokenId'', ''id'']"
    by (simp add: get_token_id_from_json_def id_keys_def token_id_loop_first)
  show "\<exists>it. parse_json_file p_stem (Some (JObj d)) idf pfx = Inr it
          \<and> token_id it =
              (if idf = Some ''filename'' then guess_token_id_from_filename p_stem
               else if idf = Some ''json'' then get_token_id_from_json d
               else (case get_token_id_from_json d of
                       Some n \<Rightarrow> Some n
                     | None \<Rightarrow> guess_token_id_from_filename p_stem))"
    by (simp add: parse_json_file_def Let_def)
  show "guess_token_id_from_filename p_stem = None" if "\<forall>c\<in>set p_stem. \<not> is_digit c"
    using that by (simp add: guess_token_id_from_filename_def re_search_digits_none)
  show "guess_token_id_from_filename (pre @ run @ post) = Some (int (nat_of_digits run))"
    if "(\<forall>c\<in>set pre. \<not> is_digit c) \<and> run \<noteq> [] \<and> (\<forall>c\<in>set run. is_digit c)
        \<and> (post = [] \<or> \<not> is_digit (hd post))"
    using that by (simp add: guess_token_id_from_filename_def re_search_digits_run py_int_digits)
  show "get_token_id_from_json ((''token_id'', JStr ''7'') # (''edition'', JInt 3) # rest) = Some 7"
    using py_int_7 by (simp add: get_token_id_from_json_def id_keys_def py_str_def)
qed

text \<open>The theorem at the file \<open>nft12a\<close> holding \<open>{"edition": "x"}\<close>, read with no
  \<open>--id-from\<close>, and at the stem \<open>abc\<close>.\<close>

theorem id_resolution_witness:
  "guess_token_id_from_filename ''nft12a'' = Some 12
   \<and> guess_token_id_from_filename ''abc'' = None
   \<and> get_token_id_from_json [(''edition'', JStr ''x'')] = None
   \<and> map_sum id token_id
        (parse_json_file ''nft12a'' (Some (JObj [(''edition'', JStr ''x'')])) None None)
       = Inr (Some 12)"
proof -
  have x: "py_int ''x'' = None"
    by (simp add: py_int_def strip_space_def is_space_def unsigned_int_def is_digit_def)
  note a = id_resolution [where d = "[(''edition'', JStr ''x'')]" and p_stem = "''nft12a''"
      and idf = None and pfx = None and pre = "''nft''" and run = "''12''" and post = "''a''"
      and rest = "[]"]
  note b = id_resolution [where d = "[]" and p_stem = "''abc''" and idf = None and pfx = None
      and pre = "[]" and run = "''1''" and post = "[]" and rest = "[]"]
  have 1: "guess_token_id_from_filename ''nft12a'' = Some 12"
    using a by (simp add: is_digit_def nat_of_digits_def digit_val_def)
  have 2: "guess_token_id_from_filename ''abc'' = None"
    using b by (simp add: is_digit_def)
  have 3: "get_token_id_from_json [(''edition'', JStr ''x'')] = None"
    using a x by (simp add: first_parseable_def map_filter_simps py_str_def)
  from a obtain it where
    "parse_json_file ''nft12a'' (Some (JObj [(''edition'', JStr ''x'')])) None None = Inr it"
    "token_id it = (case get_token_id_from_json [(''edition'', JStr ''x'')] of
                       Some n \<Rightarrow> Some n
                     | None \<Rightarrow> guess_token_id_from_filename ''nft12a'')"
    by auto
  with 1 2 3 show ?thesis by simp
qed

section \<open>Image normalization\<close>

lemma startswith_prefix: "startswith s p \<longleftrightarrow> prefix p s"
  by (auto simp: startswith_def prefix_def) (metis append_take_drop_id)

lemma replace_del_absent: "\<not> sublist old s \<Longrightarrow> replace_del old s = s"
proof (induction s)
  case Nil
  then show ?case by simp
next
  case (Cons c cs)
  then have "\<not> prefix old (c # cs)" "\<not> sublist old cs"
    by (auto simp: sublist_Cons_right)
  with Cons.IH show ?case by (simp add: startswith_prefix)
qed

lemma replace_del_lead:
  assumes "old \<noteq> []" "\<not> sublist old (strip_lead old s)"
  shows "replace_del old s = strip_lead old s"
proof (cases "startswith s old")
  case True
  with assms(1) obtain c cs where s: "s = c # cs"
    by (cases s) (auto simp: startswith_def)
  from True assms(1) have "replace_del old s = replace_del old (drop (length old) s)"
    by (simp add: s)
  also have "\<dots> = drop (length old) s"
    using assms(2) True by (intro replace_del_absent) (simp add: strip_lead_def)
  finally show ?thesis using True by (simp add: strip_lead_def)
next
  case False
  with assms(2) show ?thesis by (simp add: strip_lead_def replace_del_absent)
qed

text \<open>
  Claim C6, as stated, fails: with the prefix \<open>p\<close> the image \<open>a/ipfs://b\<close>, which does
  not start with \<open>http\<close>, becomes \<open>p/a/b\<close>, while stripping an \<open>ipfs://\<close> prefix, of which
  there is none, gives \<open>p/a/ipfs://b\<close>.
\<close>

theorem image_rewrite_counterexample:
  "normalize_image (JStr ''a/ipfs://b'') (Some ''p'') = ''p/a/b''
   \<and> claimed_rewrite ''p'' ''a/ipfs://b'' = ''p/a/ipfs://b''"
  by (simp add: normalize_image_def claimed_rewrite_def strip_lead_def startswith_def
      rstrip_char_def lstrip_char_def)

text \<open>
  Claim C6, amended. For a string image, when a non-empty prefix is given and the value
  starts with \<open>ipfs://\<close> or does not start with \<open>http\<close>, the result is the prefix without
  its trailing slashes, a slash, and the value with every occurrence of \<open>ipfs://\<close> taken
  out, then one leading \<open>ipfs/\<close> stripped, then its leading slashes dropped; otherwise
  the value is returned as it is. Where \<open>ipfs://\<close> occurs nowhere but at the start, this
  is the rewriting the specification words. An image that is not a string gives the
  empty string. Both examples of the specification give
  \<open>https://ipfs.io/ipfs/QmABC/1.png\<close>.
\<close>

theorem image_normalization:
  "normalize_image (JStr s) pfx =
     (case pfx of
        None \<Rightarrow> s
      | Some p \<Rightarrow>
          if p \<noteq> [] \<and> (startswith s ''ipfs://'' \<or> \<not> startswith s ''http'')
          then rstrip_char CHR ''/'' p @ ''/''
               @ lstrip_char CHR ''/'' (strip_lead ''ipfs/'' (replace_del ''ipfs://'' s))
          else s)
   \<and> (\<not> sublist ''ipfs://'' (strip_lead ''ipfs://'' s) \<and> p \<noteq> []
        \<and> (startswith s ''ipfs://'' \<or> \<not> startswith s ''http'')
       \<longrightarrow> normalize_image (JStr s) (Some p) = claimed_rewrite p s)
   \<and> ((\<forall>t. v \<noteq> JStr t) \<longrightarrow> normalize_image v pfx = [])
   \<and> normalize_image (JStr ''ipfs://QmABC/1.png'') (Some ''https://ipfs.io/ipfs'')
       = ''https://ipfs.io/ipfs/QmABC/1.png''
   \<and> normalize_image (JStr ''ipfs://ipfs/QmABC/1.png'') (Some ''https://ipfs.io/ipfs'')
       = ''https://ipfs.io/ipfs/QmABC/1.png''"
proof (intro conjI impI)
  show "normalize_image (JStr s) pfx =
     (case pfx of
        None \<Rightarrow> s
      | Some p \<Rightarrow>
          if p \<noteq> [] \<and> (startswith s ''ipfs://'' \<or> \<not> startswith s ''http'')
          then rstrip_char CHR ''/'' p @ ''/''
               @ lstrip_char CHR ''/'' (strip_lead ''ipfs/'' (replace_del ''ipfs://'' s))
          else s)"
    by (simp add: normalize_image_def strip_lead_def Let_def eval_nat_numeral
        split: option.splits)
  show "normalize_image (JStr s) (Some p) = claimed_rewrite p s"
    if "\<not> sublist ''ipfs://'' (strip_lead ''ipfs://'' s) \<and> p \<noteq> []
        \<and> (startswith s ''ipfs://'' \<or> \<not> startswith s ''http'')"
  proof -
    from that have "replace_del ''ipfs://'' s = strip_lead ''ipfs://'' s"
      by (intro replace_del_lead) auto
    with that show ?thesis
      by (simp add: normalize_image_def claimed_rewrite_def strip_lead_def Let_def
          eval_nat_numeral)
  qed
  show "normalize_image v pfx = []" if "\<forall>t. v \<noteq> JStr t"
    using that by (cases v) (simp_all add: normalize_image_def)
  show "normalize_image (JStr ''ipfs://QmABC/1.png'') (Some ''https://ipfs.io/ipfs'')
       = ''https://ipfs.io/ipfs/QmABC/1.png''"
    by (simp add: normalize_image_def startswith_def rstrip_char_def lstrip_char_def)
  show "normalize_image (JStr ''ipfs://ipfs/QmABC/1.png'') (Some ''https://ipfs.io/ipfs'')
       = ''https://ipfs.io/ipfs/QmABC/1.png''"
    by (simp add: normalize_image_def startswith_def rstrip_char_def lstrip_char_def)
qed

text \<open>The theorem at the image \<open>ipfs://Qm/1.png\<close> with the prefix \<open>https://gw/\<close>, and at
  an image that is a number.\<close>

theorem image_normalization_witness:
  "normalize_image (JStr ''ipfs://Qm/1.png'') (Some ''https://gw/'') = ''https://gw/Qm/1.png''
   \<and> normalize_image (JInt 4) (Some ''https://gw/'') = []"
proof -
  have "\<not> sublist ''ipfs://'' ''Qm/1.png''" by code_simp
  then show ?thesis
    using image_normalization [of "''ipfs://Qm/1.png''" "Some ''https://gw/''" "''https://gw/''" "JInt 4"]
    by (simp add: claimed_rewrite_def strip_lead_def startswith_def rstrip_char_def lstrip_char_def)
qed

section \<open>Traits of one document\<close>

lemma truthy_JNull [simp]: "\<not> truthy JNull"
  by (simp add: truthy_def)

lemma trait_step_obj:
  "trait_step tm (JObj ad) =
     (case first_truthy ad trait_keys of
        None \<Rightarrow> tm
      | Some t \<Rightarrow> dict_set (py_str t) (dict_get_default ad ''value'' (JStr [])) tm)"
  by (cases "map_of ad ''trait_type''"; cases "map_of ad ''trait''"; cases "map_of ad ''type''")
     (simp_all add: trait_step_def first_truthy_def trait_keys_def map_filter_simps Let_def
        py_or_def dict_get_def dict_get_default_def)

lemma trait_step_other: "\<forall>ad. a \<noteq> JObj ad \<Longrightarrow> trait_step tm a = tm"
  by (cases a) (simp_all add: trait_step_def)

lemma trait_step_entry:
  "trait_step tm a = (case entry_trait a of None \<Rightarrow> tm | Some (n, v) \<Rightarrow> dict_set n v tm)"
  by (cases a) (simp_all add: trait_step_obj entry_trait_def trait_step_other split: option.splits)

lemma map_of_dict_set: "map_of (dict_set k v d) k' = (if k' = k then Some v else map_of d k')"
  by (induction d) auto

lemma keys_dict_set: "fst ` set (dict_set k v d) = insert k (fst ` set d)"
proof (induction d)
  case Nil
  then show ?case by simp
next
  case (Cons kv d)
  obtain k' v' where kv: "kv = (k', v')" by (cases kv)
  show ?case
  proof (cases "k' = k")
    case True
    then show ?thesis by (simp add: kv)
  next
    case False
    then show ?thesis using Cons.IH by (simp add: kv insert_commute)
  qed
qed

lemma distinct_dict_set: "distinct (map fst d) \<Longrightarrow> distinct (map fst (dict_set k v d))"
  by (induction d) (auto simp: keys_dict_set)

lemma distinct_trait_step: "distinct (map fst tm) \<Longrightarrow> distinct (map fst (trait_step tm a))"
  by (auto simp: trait_step_entry distinct_dict_set split: option.splits)

lemma distinct_trait_fold:
  "distinct (map fst tm) \<Longrightarrow> distinct (map fst (foldl trait_step tm atts))"
  by (induction atts arbitrary: tm) (auto simp: distinct_trait_step)

lemma map_of_trait_fold:
  "map_of (foldl trait_step tm atts) n =
     (if occurrences atts n = [] then map_of tm n else Some (last (occurrences atts n)))"
proof (induction atts arbitrary: tm)
  case Nil
  then show ?case by (simp add: occurrences_def map_filter_simps)
next
  case (Cons a atts)
  show ?case
  proof (cases "entry_trait a")
    case None
    then show ?thesis
      using Cons.IH[of tm] by (simp add: trait_step_entry occurrences_def map_filter_simps)
  next
    case (Some nv)
    obtain k v where nv: "nv = (k, v)" by (cases nv)
    show ?thesis
      using Cons.IH[of "dict_set k v tm"] Some nv
      by (simp add: trait_step_entry occurrences_def map_filter_simps map_of_dict_set)
  qed
qed

lemma keys_order_dict_set:
  "map fst (dict_set k v d) = (if k \<in> fst ` set d then map fst d else map fst d @ [k])"
proof (induction d)
  case Nil
  then show ?case by simp
next
  case (Cons kv d)
  obtain k' v' where kv: "kv = (k', v')" by (cases kv)
  show ?case
  proof (cases "k' = k")
    case True
    then show ?thesis by (simp add: kv)
  next
    case False
    then show ?thesis using Cons.IH by (auto simp: kv)
  qed
qed

lemma trait_fold_keys:
  "distinct (map fst tm) \<Longrightarrow>
   map fst (foldl trait_step tm atts)
   = rev (remdups (rev (map fst tm @ map fst (List.map_filter entry_trait atts))))"
proof (induction atts arbitrary: tm)
  case Nil
  then show ?case by (simp add: map_filter_simps distinct_remdups_id)
next
  case (Cons a atts)
  show ?case
  proof (cases "entry_trait a")
    case None
    then show ?thesis
      using Cons.IH[OF Cons.prems] by (simp add: trait_step_entry map_filter_simps)
  next
    case (Some nv)
    obtain k v where nv: "nv = (k, v)" by (cases nv)
    let ?rest = "map fst (List.map_filter entry_trait atts)"
    have step: "trait_step tm a = dict_set k v tm"
      using Some nv by (simp add: trait_step_entry)
    have d: "distinct (map fst (dict_set k v tm))"
      using Cons.prems by (rule distinct_dict_set)
    have names: "map fst (List.map_filter entry_trait (a # atts)) = k # ?rest"
      using Some nv by (simp add: map_filter_simps)
    have "remdups (rev (map fst (dict_set k v tm) @ ?rest))
          = remdups (rev (map fst tm @ k # ?rest))"
    proof (cases "k \<in> fst ` set tm")
      case True
      then have "remdups (rev ?rest @ k # rev (map fst tm)) = remdups (rev ?rest @ rev (map fst tm))"
        by (intro remdups_drop_seen) simp
      with True show ?thesis by (simp add: keys_order_dict_set)
    next
      case False
      then show ?thesis by (simp add: keys_order_dict_set)
    qed
    then show ?thesis
      using Cons.IH[OF d] by (simp add: step Some nv)
  qed
qed

lemma extract_traits_list:
  "map_of d ''attributes'' = Some (JList atts) \<Longrightarrow> extract_traits d = foldl trait_step [] atts"
  by (simp add: extract_traits_def dict_get_default_def)

text \<open>
  Claim C3, as stated, fails: of two attribute entries named \<open>A\<close>, with the values 1
  and 2, the trait mapping keeps 2, the value of the second, while the first
  occurrence has the value 1.
\<close>

theorem first_occurrence_counterexample:
  "map_of (extract_traits [(''attributes'', JList dup_atts)]) ''A'' = Some (JInt 2)
   \<and> hd (occurrences dup_atts ''A'') = JInt 1"
  by (simp add: extract_traits_def dict_get_default_def dup_atts_def trait_step_def Let_def
      dict_get_def py_or_def truthy_def py_str_def occurrences_def map_filter_simps
      entry_trait_def first_truthy_def trait_keys_def)

text \<open>
  Claim C3, amended. When the attribute list of a document has several entries that
  resolve to one trait name, the trait mapping binds the name to the value of the last
  of them (a name no entry resolves to is not bound). The keys of the mapping are
  unique and stand in the order in which the names first occur in the list, so a name
  that comes again keeps the place of its first occurrence: the entries \<open>A: 1\<close>,
  \<open>B: 2\<close>, \<open>A: 3\<close> give the mapping \<open>{A: 3, B: 2}\<close>.
\<close>

theorem last_occurrence_wins:
  "(map_of d ''attributes'' = Some (JList atts) \<longrightarrow>
      map_of (extract_traits d) n =
        (if occurrences atts n = [] then None else Some (last (occurrences atts n)))
      \<and> map fst (extract_traits d)
          = rev (remdups (rev (map fst (List.map_filter entry_trait atts)))))
   \<and> distinct (map fst (extract_traits d))
   \<and> extract_traits [(''attributes'', JList aba_atts)] = [(''A'', JInt 3), (''B'', JInt 2)]"
proof (intro conjI impI)
  assume h: "map_of d ''attributes'' = Some (JList atts)"
  show "map_of (extract_traits d) n =
        (if occurrences atts n = [] then None else Some (last (occurrences atts n)))"
    using h by (simp add: extract_traits_list map_of_trait_fold)
  show "map fst (extract_traits d)
          = rev (remdups (rev (map fst (List.map_filter entry_trait atts))))"
    using h trait_fold_keys[of "[]" atts] by (simp add: extract_traits_list)
next
  show "distinct (map fst (extract_traits d))"
    by (auto simp: extract_traits_def distinct_trait_fold split: json.splits)
  show "extract_traits [(''attributes'', JList aba_atts)] = [(''A'', JInt 3), (''B'', JInt 2)]"
    by (simp add: extract_traits_def dict_get_default_def aba_atts_def trait_step_def Let_def
        dict_get_def py_or_def truthy_def py_str_def)
qed

text \<open>The theorem at the entries \<open>A: 1\<close>, \<open>B: 2\<close>, \<open>A: 3\<close>.\<close>

theorem last_occurrence_wins_witness:
  "map_of (extract_traits [(''attributes'', JList aba_atts)]) ''A'' = Some (JInt 3)
   \<and> map fst (extract_traits [(''attributes'', JList aba_atts)]) = [''A'', ''B'']
   \<and> distinct (map fst (extract_traits [(''attributes'', JList aba_atts)]))"
proof -
  note t = last_occurrence_wins [of "[(''attributes'', JList aba_atts)]" aba_atts "''A''"]
  have h: "map_of [(''attributes'', JList aba_atts)] ''attributes'' = Some (JList aba_atts)"
    by simp
  have e: "List.map_filter entry_trait aba_atts
           = [(''A'', JInt 1), (''B'', JInt 2), (''A'', JInt 3)]"
    by (simp add: aba_atts_def map_filter_simps entry_trait_def first_truthy_def trait_keys_def
        truthy_def py_str_def dict_get_default_def)
  have o: "occurrences aba_atts ''A'' = [JInt 1, JInt 3]"
    by (simp add: occurrences_def e)
  have r: "rev (remdups (rev (map fst (List.map_filter entry_trait aba_atts)))) = [''A'', ''B'']"
    by (simp add: e)
  from t h have "map_of (extract_traits [(''attributes'', JList aba_atts)]) ''A''
      = (if occurrences aba_atts ''A'' = [] then None
         else Some (last (occurrences aba_atts ''A'')))"
    by blast
  then have 1: "map_of (extract_traits [(''attributes'', JList aba_atts)]) ''A'' = Some (JInt 3)"
    by (simp add: o)
  from t h have "map fst (extract_traits [(''attributes'', JList aba_atts)])
      = rev (remdups (rev (map fst (List.map_filter entry_trait aba_atts))))"
    by blast
  then have 2: "map fst (extract_traits [(''attributes'', JList aba_atts)]) = [''A'', ''B'']"
    by (simp only: r)
  from t have 3: "distinct (map fst (extract_traits [(''attributes'', JList aba_atts)]))"
    by blast
  from 1 2 3 show ?thesis by (intro conjI)
qed

text \<open>
  Claim C4, as stated, fails: in the entry
  \<open>{"trait_type": "", "trait": "Hat", "value": "Cap"}\<close> the first key present is
  \<open>trait_type\<close>, with the empty string, while the trait the program records is \<open>Hat\<close>.
\<close>

theorem first_present_counterexample:
  "first_present hat_entry trait_keys = Some (JStr '''')
   \<and> trait_step [] (JObj hat_entry) = [(''Hat'', JStr ''Cap'')]"
  by (simp add: first_present_def hat_entry_def trait_keys_def map_filter_simps trait_step_def
      Let_def dict_get_def dict_get_default_def py_or_def truthy_def py_str_def)

text \<open>
  Claim C4, amended. An attribute entry that is not an object is skipped. For an
  object, the trait name is the text of the first true value among those of
  \<open>trait_type\<close>, \<open>trait\<close>, \<open>type\<close> (truth, not presence: a key bound to an empty
  string, zero, false, null or an empty container is passed over); an entry without
  such a value is skipped, its value with it; the trait value is that of the key
  \<open>value\<close>, or the empty string when the key is absent. A document whose
  \<open>attributes\<close> is not a list has no traits.
\<close>

theorem trait_name_resolution:
  "((\<forall>ad. a \<noteq> JObj ad) \<longrightarrow> trait_step tm a = tm)
   \<and> (first_truthy ad trait_keys = None \<longrightarrow> trait_step tm (JObj ad) = tm)
   \<and> (first_truthy ad trait_keys = Some t \<longrightarrow>
        trait_step tm (JObj ad)
          = dict_set (py_str t) (case map_of ad ''value'' of None \<Rightarrow> JStr [] | Some v \<Rightarrow> v) tm)
   \<and> ((\<forall>atts. dict_get_default d ''attributes'' (JList []) \<noteq> JList atts)
        \<longrightarrow> extract_traits d = [])
   \<and> (dict_get_default d ''attributes'' (JList []) = JList atts
        \<longrightarrow> extract_traits d = foldl trait_step [] atts)"
  by (auto simp: trait_step_other trait_step_obj dict_get_default_def extract_traits_def
      split: option.splits json.splits)

text \<open>The theorem at an entry that is a number, an entry whose only name is zero, the
  entry of the counterexample, and documents whose \<open>attributes\<close> is a string and a
  one-entry list.\<close>

theorem trait_name_resolution_witness:
  "trait_step [] (JInt 3) = []
   \<and> trait_step [] (JObj [(''trait_type'', JInt 0), (''value'', JInt 1)]) = []
   \<and> trait_step [] (JObj hat_entry) = [(''Hat'', JStr ''Cap'')]
   \<and> extract_traits [(''attributes'', JStr ''x'')] = []
   \<and> extract_traits [(''attributes'', JList [JObj [(''type'', JInt 7)]])] = [(''7'', JStr [])]"
proof -
  have 1: "first_truthy [(''trait_type'', JInt 0), (''value'', JInt 1)] trait_keys = None"
    by (simp add: first_truthy_def trait_keys_def map_filter_simps truthy_def)
  have 2: "first_truthy hat_entry trait_keys = Some (JStr ''Hat'')"
    by (simp add: first_truthy_def trait_keys_def map_filter_simps truthy_def hat_entry_def)
  have 3: "first_truthy [(''type'', JInt 7)] trait_keys = Some (JInt 7)"
    by (simp add: first_truthy_def trait_keys_def map_filter_simps truthy_def)
  have 4: "py_str (JInt 7) = ''7''"
    by (simp add: py_str_def int_str_def nat_str.simps)
  show ?thesis
    using trait_name_resolution [of "JInt 3" "[]" "[(''trait_type'', JInt 0), (''value'', JInt 1)]" "JInt 0"
        "[(''attributes'', JStr ''x'')]" "[]"]
      trait_name_resolution [of "JInt 3" "[]" hat_entry "JStr ''Hat''"
        "[(''attributes'', JList [JObj [(''type'', JInt 7)]])]" "[JObj [(''type'', JInt 7)]]"]
      trait_name_resolution [of "JInt 3" "[]" "[(''type'', JInt 7)]" "JInt 7"
        "[(''attributes'', JList [JObj [(''type'', JInt 7)]])]" "[JObj [(''type'', JInt 7)]]"]
      1 2 3 4
    by (simp add: dict_get_default_def hat_entry_def py_str_def)
qed

section \<open>Trait columns\<close>

lemma remdups_append_filter:
  "remdups (xs @ ys) = filter (\<lambda>a. a \<notin> set ys) (remdups xs) @ remdups ys"
  by (induction xs) auto

lemma see_trait_fold:
  "distinct ord \<Longrightarrow>
   foldl see_trait (ord, set ord) ts = (rev (remdups (rev (ord @ ts))), set (ord @ ts))"
proof (induction ts arbitrary: ord)
  case Nil
  then show ?case by (simp add: distinct_remdups_id)
next
  case (Cons t ts)
  show ?case
  proof (cases "t \<in> set ord")
    case True
    then have "remdups (rev ts @ t # rev ord) = remdups (rev ts @ rev ord)"
      by (intro remdups_drop_seen) simp
    with True Cons show ?thesis
      by (simp add: see_trait_def insert_absorb)
  next
    case False
    with Cons.prems have "distinct (ord @ [t])" by simp
    from Cons.IH[OF this] False show ?thesis
      by (simp add: see_trait_def)
  qed
qed

lemma see_item_fold: "foldl see_item st items = foldl see_trait st (trait_names items)"
  by (induction items arbitrary: st) (simp_all add: trait_names_def see_item_def)

lemma all_traits_order_first_seen:
  "all_traits_order items = rev (remdups (rev (trait_names items)))"
  using see_trait_fold[of "[]" "trait_names items"]
  by (simp add: all_traits_order_def see_item_fold)

text \<open>
  Claim C2. The trait columns of a batch are the trait names of its items, read item
  by item and name by name, with every name kept at its first occurrence only: the
  list has no duplicate, holds exactly the names that occur, and one more item appends
  its names that are not yet there, in its own order. The items \<open>{A: 1}\<close> and
  \<open>{B: 2, A: 3}\<close> give \<open>[A, B]\<close>; the items \<open>{B: 2}\<close> and \<open>{A: 1}\<close> give \<open>[B, A]\<close>, so the
  result is not sorted.
\<close>

theorem trait_union_first_seen:
  "all_traits_order items = rev (remdups (rev (trait_names items)))
   \<and> distinct (all_traits_order items)
   \<and> set (all_traits_order items) = set (trait_names items)
   \<and> all_traits_order (items @ [it])
       = all_traits_order items
         @ filter (\<lambda>t. t \<notin> set (all_traits_order items)) (all_traits_order [it])
   \<and> all_traits_order [x\<lparr>traits := [(''A'', JInt 1)]\<rparr>,
                        y\<lparr>traits := [(''B'', JInt 2), (''A'', JInt 3)]\<rparr>] = [''A'', ''B'']
   \<and> all_traits_order [x\<lparr>traits := [(''B'', JInt 2)]\<rparr>, y\<lparr>traits := [(''A'', JInt 1)]\<rparr>]
       = [''B'', ''A'']"
proof (intro conjI)
  show "all_traits_order items = rev (remdups (rev (trait_names items)))"
    by (rule all_traits_order_first_seen)
  show "distinct (all_traits_order items)"
    by (simp add: all_traits_order_first_seen)
  show "set (all_traits_order items) = set (trait_names items)"
    by (simp add: all_traits_order_first_seen)
  have "trait_names (items @ [it]) = trait_names items @ trait_names [it]"
    by (simp add: trait_names_def)
  then show "all_traits_order (items @ [it])
       = all_traits_order items
         @ filter (\<lambda>t. t \<notin> set (all_traits_order items)) (all_traits_order [it])"
    by (simp add: all_traits_order_first_seen remdups_append_filter rev_filter)
  show "all_traits_order [x\<lparr>traits := [(''A'', JInt 1)]\<rparr>,
                        y\<lparr>traits := [(''B'', JInt 2), (''A'', JInt 3)]\<rparr>] = [''A'', ''B'']"
    by (simp add: all_traits_order_def see_item_def see_trait_def)
  show "all_traits_order [x\<lparr>traits := [(''B'', JInt 2)]\<rparr>, y\<lparr>traits := [(''A'', JInt 1)]\<rparr>]
       = [''B'', ''A'']"
    by (simp add: all_traits_order_def see_item_def see_trait_def)
qed

text \<open>The theorem at a batch of one item with the trait \<open>A\<close>, extended by an item with
  the traits \<open>B\<close> and \<open>A\<close>.\<close>

theorem trait_union_first_seen_witness:
  "all_traits_order ([blank_item\<lparr>traits := [(''A'', JInt 1)]\<rparr>]
                     @ [blank_item\<lparr>traits := [(''B'', JInt 2), (''A'', JInt 3)]\<rparr>])
   = [''A'', ''B'']"
proof -
  have "all_traits_order [blank_item\<lparr>traits := [(''A'', JInt 1)]\<rparr>] = [''A'']"
    using trait_union_first_seen [of "[blank_item\<lparr>traits := [(''A'', JInt 1)]\<rparr>]"]
    by (simp add: trait_names_def)
  moreover have "all_traits_order [blank_item\<lparr>traits := [(''B'', JInt 2), (''A'', JInt 3)]\<rparr>]
                 = [''B'', ''A'']"
    using trait_union_first_seen
      [of "[blank_item\<lparr>traits := [(''B'', JInt 2), (''A'', JInt 3)]\<rparr>]"]
    by (simp add: trait_names_def)
  ultimately show ?thesis
    using trait_union_first_seen [of "[blank_item\<lparr>traits := [(''A'', JInt 1)]\<rparr>]"
        "blank_item\<lparr>traits := [(''B'', JInt 2), (''A'', JInt 3)]\<rparr>"]
    by simp
qed

section \<open>Sorted output\<close>












section \<open>The filename column\<close>

lemma emit_emit: "emit s (emit t r) = emit (s @ t) r"
  by (cases r) simp_all

lemma emit_Nil: "emit [] r = r"
  by (cases r) simp_all

lemma scan_plain_char:
  "c \<noteq> CHR ''{'' \<Longrightarrow> c \<noteq> CHR ''}'' \<Longrightarrow>
   format_scan kw None (c # cs) = emit [c] (format_scan kw None cs)"
  by (cases cs) simp_all

lemma scan_double_brace:
  "c = CHR ''{'' \<or> c = CHR ''}'' \<Longrightarrow>
   format_scan kw None (c # c # cs) = emit [c] (format_scan kw None cs)"
  by auto

lemma scan_literal:
  "format_scan kw None (escape_braces s @ rest) = emit s (format_scan kw None rest)"
proof (induction s)
  case Nil
  then show ?case by (simp add: escape_braces_def emit_Nil)
next
  case (Cons c s)
  have e: "escape_braces (c # s)
           = (if c = CHR ''{'' \<or> c = CHR ''}'' then [c, c] else [c]) @ escape_braces s"
    by (simp add: escape_braces_def)
  show ?case
  proof (cases "c = CHR ''{'' \<or> c = CHR ''}''")
    case True
    then show ?thesis
      using Cons.IH scan_double_brace[of c kw "escape_braces s @ rest"]
      by (simp add: e emit_emit)
  next
    case False
    then show ?thesis
      using Cons.IH scan_plain_char[of c kw "escape_braces s @ rest"]
      by (simp add: e emit_emit)
  qed
qed

lemma scan_field_step:
  "c \<notin> set ''{}[]!:.'' \<Longrightarrow>
   format_scan kw (Some acc) (c # cs) = format_scan kw (Some (c # acc)) cs"
  by simp

lemma scan_field_close:
  "format_scan kw (Some acc) (CHR ''}'' # rest) =
     (case get_field kw (rev acc) of
        Done v \<Rightarrow> emit v (format_scan kw None rest)
      | Raise e \<Rightarrow> Raise e
      | Unmodelled \<Rightarrow> Unmodelled)"
  by simp

lemma scan_field_name:
  "list_all (\<lambda>c. c \<notin> set ''{}[]!:.'') n \<Longrightarrow>
   format_scan kw (Some acc) (n @ CHR ''}'' # rest) =
     (case get_field kw (rev acc @ n) of
        Done v \<Rightarrow> emit v (format_scan kw None rest)
      | Raise e \<Rightarrow> Raise e
      | Unmodelled \<Rightarrow> Unmodelled)"
proof (induction n arbitrary: acc)
  case Nil
  show ?case by (simp only: append_Nil append_Nil2 scan_field_close)
next
  case (Cons c n)
  then have c: "c \<notin> set ''{}[]!:.''" and n: "list_all (\<lambda>c. c \<notin> set ''{}[]!:.'') n"
    by simp_all
  have "format_scan kw (Some acc) ((c # n) @ CHR ''}'' # rest)
        = format_scan kw (Some (c # acc)) (n @ CHR ''}'' # rest)"
    using scan_field_step[OF c] by simp
  also have "\<dots> = (case get_field kw (rev (c # acc) @ n) of
        Done v \<Rightarrow> emit v (format_scan kw None rest)
      | Raise e \<Rightarrow> Raise e
      | Unmodelled \<Rightarrow> Unmodelled)"
    by (rule Cons.IH[OF n])
  finally show ?case by simp
qed

lemma get_field_simple:
  assumes p: "simple_name n"
  shows "get_field kw n =
    (if list_all is_digit n then Raise IndexError
     else (case map_of kw n of None \<Rightarrow> Raise (KeyError n) | Some v \<Rightarrow> Done (py_str v)))"
proof -
  from p have "\<forall>c\<in>set n. c \<noteq> CHR ''.''"
    by (auto simp: simple_name_def list_all_iff)
  then have t: "takeWhile (\<lambda>c. c \<noteq> CHR ''.'') n = n" by simp
  from p have d: "\<not> list_all is_digit n \<or> length n < 10" by (simp add: simple_name_def)
  show ?thesis
  proof (cases "n = []")
    case True
    then show ?thesis by (simp add: get_field_def)
  next
    case False
    with d show ?thesis
      unfolding get_field_def t Let_def by (auto split: option.splits)
  qed
qed

lemma scan_simple_field:
  assumes "simple_name n"
  shows "format_scan kw None (CHR ''{'' # n @ CHR ''}'' # rest) =
     (if list_all is_digit n then Raise IndexError
      else (case map_of kw n of
              None \<Rightarrow> Raise (KeyError n)
            | Some v \<Rightarrow> emit (py_str v) (format_scan kw None rest)))"
proof -
  from assms have sp: "list_all (\<lambda>c. c \<notin> set ''{}[]!:.'') n" by (simp add: simple_name_def)
  have "format_scan kw None (CHR ''{'' # n @ CHR ''}'' # rest)
        = format_scan kw (Some []) (n @ CHR ''}'' # rest)"
  proof (cases n)
    case Nil
    then show ?thesis by simp
  next
    case (Cons c cs)
    with sp have c: "c \<noteq> CHR ''{''" by simp
    have "format_scan kw None (CHR ''{'' # c # (cs @ CHR ''}'' # rest))
          = format_scan kw (Some []) (c # (cs @ CHR ''}'' # rest))"
      using c by simp
    then show ?thesis by (simp add: Cons)
  qed
  also have "\<dots> = (case get_field kw n of
        Done v \<Rightarrow> emit v (format_scan kw None rest)
      | Raise e \<Rightarrow> Raise e
      | Unmodelled \<Rightarrow> Unmodelled)"
    using scan_field_name[OF sp, of kw "[]" rest] by simp
  finally show ?thesis
    by (simp add: get_field_simple[OF assms] split: option.splits)
qed

lemma scan_simple_pieces:
  "list_all simple_name (vars_of ps) \<Longrightarrow>
   format_scan kw None (template_of ps @ rest) =
     (case List.find (\<lambda>n. list_all is_digit n \<or> map_of kw n = None) (vars_of ps) of
        Some n \<Rightarrow> Raise (if list_all is_digit n then IndexError else KeyError n)
      | None \<Rightarrow> emit (fill_in (kw_text kw) ps) (format_scan kw None rest))"
proof (induction ps rule: template_of.induct)
  case 1
  show ?case by (simp add: emit_Nil)
next
  case (2 s ps)
  then have IH: "format_scan kw None (template_of ps @ rest) =
     (case List.find (\<lambda>n. list_all is_digit n \<or> map_of kw n = None) (vars_of ps) of
        Some n \<Rightarrow> Raise (if list_all is_digit n then IndexError else KeyError n)
      | None \<Rightarrow> emit (fill_in (kw_text kw) ps) (format_scan kw None rest))" by simp
  show ?case
    by (simp add: scan_literal IH emit_emit split: option.splits)
next
  case (3 n ps)
  then have p: "simple_name n" and IH: "format_scan kw None (template_of ps @ rest) =
     (case List.find (\<lambda>n. list_all is_digit n \<or> map_of kw n = None) (vars_of ps) of
        Some n \<Rightarrow> Raise (if list_all is_digit n then IndexError else KeyError n)
      | None \<Rightarrow> emit (fill_in (kw_text kw) ps) (format_scan kw None rest))" by simp_all
  have t: "template_of (Var n # ps) @ rest = CHR ''{'' # n @ CHR ''}'' # (template_of ps @ rest)"
    by simp
  show ?case
  proof (cases "list_all is_digit n")
    case True
    then show ?thesis unfolding t by (simp add: scan_simple_field[OF p])
  next
    case False
    show ?thesis
    proof (cases "map_of kw n")
      case None
      with False show ?thesis unfolding t by (simp add: scan_simple_field[OF p])
    next
      case (Some v)
      then have "kw_text kw n = py_str v" by (simp add: kw_text_def)
      with Some False show ?thesis
        unfolding t by (simp add: scan_simple_field[OF p] IH emit_emit split: option.splits)
    qed
  qed
qed

lemma render_as_format:
  "render_filename_col L template tid item_stem img_raw
   = format_scan (render_kwargs L tid item_stem img_raw) None template"
  by (simp add: render_filename_col_def render_kwargs_def str_format_def Let_def)

lemma kwargs_unknown:
  "map_of (render_kwargs L tid item_stem img_raw) n = None \<longleftrightarrow> n \<notin> set var_names"
  by (simp add: render_kwargs_def var_names_def)

lemma kwargs_text:
  "kw_text (render_kwargs L tid item_stem img_raw) = var_value L tid item_stem img_raw"
proof
  fix n
  show "kw_text (render_kwargs L tid item_stem img_raw) n = var_value L tid item_stem img_raw n"
    by (simp add: kw_text_def render_kwargs_def var_value_def py_str_def py_or_def
        ext_from_name_def Let_def)
qed

lemma var_names_not_numbers: "n \<in> set var_names \<Longrightarrow> \<not> list_all is_digit n"
  by (auto simp: var_names_def is_digit_def)

lemma kwargs_fails:
  "(list_all is_digit n \<or> map_of (render_kwargs L tid item_stem img_raw) n = None)
   \<longleftrightarrow> n \<notin> set var_names"
  using var_names_not_numbers[of n] by (auto simp: kwargs_unknown)

lemma render_simple_pieces:
  assumes "list_all simple_name (vars_of ps)"
  shows "render_filename_col L (template_of ps @ rest) tid item_stem img_raw =
       (case List.find (\<lambda>n. n \<notin> set var_names) (vars_of ps) of
          None \<Rightarrow> emit (fill_in (var_value L tid item_stem img_raw) ps)
                    (format_scan (render_kwargs L tid item_stem img_raw) None rest)
        | Some n \<Rightarrow> Raise (if list_all is_digit n then IndexError else KeyError n))"
  using scan_simple_pieces[OF assms, of "render_kwargs L tid item_stem img_raw" rest]
  by (simp add: render_as_format kwargs_fails kwargs_text split: option.splits)

lemma project_row_raise:
  "filename_col_name a \<noteq> None \<Longrightarrow>
   render_filename_col L (filename_tmpl a) (token_id it) (stem it) (image_raw it) = Raise e \<Longrightarrow>
   project_row L a cols order it = Raise e"
  by (auto simp: project_row_def Let_def)

lemma write_per_file_raise:
  "project_row L a cols order it = Raise e \<Longrightarrow>
   snd (write_per_file L a hdr cols order (it # rest)) = Aborted (Uncaught e)"
  by simp

lemma write_rows_raise:
  "project_row L a cols order it = Raise e \<Longrightarrow>
   snd (write_rows L a cols order (it # rest)) = Aborted (Uncaught e)"
  by simp

lemma write_outputs_raise:
  assumes all: "\<forall>it\<in>set items. project_row L a (base_cols a) (all_traits_order items) it = Raise e"
    and ne: "items \<noteq> []"
    and out: "folder_mode \<or> emit_per_file a \<or> agg_path a folder_mode \<noteq> None"
  shows "snd (write_outputs L a folder_mode items) = Aborted (Uncaught e)"
proof (cases "folder_mode \<or> emit_per_file a")
  case True
  from ne obtain it rest where items: "items = it # rest" by (cases items) auto
  with all have "project_row L a (base_cols a) (all_traits_order items) it = Raise e" by simp
  then have "snd (write_per_file L a (header a items) (base_cols a) (all_traits_order items) items)
             = Aborted (Uncaught e)"
    unfolding items by (rule write_per_file_raise)
  with True show ?thesis
    by (auto simp: write_outputs_def Let_def split: prod.splits)
next
  case False
  with out obtain path where path: "agg_path a folder_mode = Some path" by auto
  have "mset (agg_items a items) = mset items" by (simp add: agg_items_def)
  then have s: "set (agg_items a items) = set items" by (rule mset_eq_setD)
  with ne obtain it rest where ag: "agg_items a items = it # rest"
    by (cases "agg_items a items") auto
  with s all have "project_row L a (base_cols a) (all_traits_order items) it = Raise e"
    by (metis list.set_intros(1))
  then have "snd (write_rows L a (base_cols a) (all_traits_order items) (agg_items a items))
             = Aborted (Uncaught e)"
    unfolding ag by (rule write_rows_raise)
  with False path show ?thesis
    by (auto simp: write_outputs_def Let_def split: prod.splits)
qed

text \<open>
  Claim C8, as stated, fails: the template \<open>{token_id}}\<close>, a reference to \<open>token_id\<close>
  followed by a closing brace, references no other variable, and rendering it raises
  \<open>ValueError\<close>.
\<close>

theorem stray_brace_counterexample:
  "template_of [Var ''token_id''] @ ''}'' = ''{token_id}}''
   \<and> render_filename_col simple_lib ''{token_id}}'' (Some 5) ''5'' (JStr []) = Raise ValueError"
  by (simp add: render_as_format render_kwargs_def get_field_def is_digit_def py_str_def)

text \<open>
  Claim C8, amended. For a template made of literal text, with its braces doubled, and
  of replacement fields \<open>{name}\<close> with simple names, the renderer succeeds iff every
  name is one of \<open>token_id\<close>, \<open>stem\<close>, \<open>image\<close>, \<open>image_name\<close>, \<open>image_ext\<close>, and then
  returns the text with each field replaced by its value: the decimal form of the token
  id or the empty string when there is none, the stem, the text of the raw image when
  it is true and the empty string otherwise, the name of the image, and its extension
  or \<open>.png\<close> when the name has none. Otherwise it raises for the first field whose
  name is none of the five: \<open>IndexError\<close> when that name is empty or a number,
  \<open>KeyError\<close> when it is anything else. Such a template followed by one single brace
  raises \<open>ValueError\<close> when all its names are among the five, and the exception of
  its first other name when not. The template \<open>{token_id}.png\<close> gives \<open>5.png\<close> for the
  token id 5 and \<open>.png\<close> for an absent one. An exception of the renderer is not caught:
  when rendering raises it for the items of a batch that is not empty, with a filename
  column and some output requested, the run ends with that exception.
\<close>

theorem filename_renderer:
  "(list_all simple_name (vars_of ps) \<longrightarrow>
      render_filename_col L (template_of ps) tid item_stem img_raw =
        (case List.find (\<lambda>n. n \<notin> set var_names) (vars_of ps) of
           None \<Rightarrow> Done (fill_in (var_value L tid item_stem img_raw) ps)
         | Some n \<Rightarrow> Raise (if list_all is_digit n then IndexError else KeyError n)))
   \<and> (list_all simple_name (vars_of ps) \<and> (brace = ''{'' \<or> brace = ''}'') \<longrightarrow>
      render_filename_col L (template_of ps @ brace) tid item_stem img_raw =
        (case List.find (\<lambda>n. n \<notin> set var_names) (vars_of ps) of
           None \<Rightarrow> Raise ValueError
         | Some n \<Rightarrow> Raise (if list_all is_digit n then IndexError else KeyError n)))
   \<and> render_filename_col L ''{token_id}.png'' (Some 5) item_stem img_raw = Done ''5.png''
   \<and> render_filename_col L ''{token_id}.png'' None item_stem img_raw = Done ''.png''
   \<and> (filename_col_name a \<noteq> None \<and> items \<noteq> []
        \<and> (\<forall>it\<in>set items.
              render_filename_col L (filename_tmpl a) (token_id it) (stem it) (image_raw it)
                = Raise e)
        \<and> (folder_mode \<or> emit_per_file a \<or> agg_path a folder_mode \<noteq> None)
       \<longrightarrow> snd (write_outputs L a folder_mode items) = Aborted (Uncaught e))"
proof (intro conjI impI)
  show "render_filename_col L (template_of ps) tid item_stem img_raw =
        (case List.find (\<lambda>n. n \<notin> set var_names) (vars_of ps) of
           None \<Rightarrow> Done (fill_in (var_value L tid item_stem img_raw) ps)
         | Some n \<Rightarrow> Raise (if list_all is_digit n then IndexError else KeyError n))"
    if "list_all simple_name (vars_of ps)"
    using render_simple_pieces[OF that, of L "[]" tid item_stem img_raw]
    by (simp split: option.splits)
  show "render_filename_col L (template_of ps @ brace) tid item_stem img_raw =
        (case List.find (\<lambda>n. n \<notin> set var_names) (vars_of ps) of
           None \<Rightarrow> Raise ValueError
         | Some n \<Rightarrow> Raise (if list_all is_digit n then IndexError else KeyError n))"
    if h: "list_all simple_name (vars_of ps) \<and> (brace = ''{'' \<or> brace = ''}'')"
  proof -
    from h have s: "list_all simple_name (vars_of ps)" by simp
    from h have "format_scan (render_kwargs L tid item_stem img_raw) None brace = Raise ValueError"
      by auto
    then show ?thesis
      using render_simple_pieces[OF s, of L brace tid item_stem img_raw]
      by (simp split: option.splits)
  qed
  have p: "list_all simple_name (vars_of [Var ''token_id'', Lit ''.png''])"
    by (simp add: simple_name_def is_digit_def)
  have t: "template_of [Var ''token_id'', Lit ''.png''] @ [] = ''{token_id}.png''"
    by (simp add: escape_braces_def)
  have i5: "int_str 5 = ''5''" by (simp add: int_str_def nat_str.simps)
  show "render_filename_col L ''{token_id}.png'' (Some 5) item_stem img_raw = Done ''5.png''"
    using render_simple_pieces[OF p, of L "[]" "Some 5" item_stem img_raw]
    unfolding t by (simp add: var_names_def var_value_def i5)
  show "render_filename_col L ''{token_id}.png'' None item_stem img_raw = Done ''.png''"
    using render_simple_pieces[OF p, of L "[]" None item_stem img_raw]
    unfolding t by (simp add: var_names_def var_value_def)
  show "snd (write_outputs L a folder_mode items) = Aborted (Uncaught e)"
    if "filename_col_name a \<noteq> None \<and> items \<noteq> []
        \<and> (\<forall>it\<in>set items.
              render_filename_col L (filename_tmpl a) (token_id it) (stem it) (image_raw it)
                = Raise e)
        \<and> (folder_mode \<or> emit_per_file a \<or> agg_path a folder_mode \<noteq> None)"
    using that by (intro write_outputs_raise) (auto intro: project_row_raise)
qed

text \<open>The theorem at the templates \<open>{stem}-{{x}}.png\<close>, \<open>{foo}\<close>, \<open>{}\<close>, \<open>{0}\<close>,
  \<open>{stem}}\<close> and \<open>{foo}{\<close>, and at a folder-mode run over one item with the column
  \<open>filename\<close> and the template \<open>{foo}\<close>.\<close>

theorem filename_renderer_witness:
  "render_filename_col simple_lib ''{stem}-{{x}}.png'' (Some 5) ''a'' (JStr []) = Done ''a-{x}.png''
   \<and> render_filename_col simple_lib ''{foo}'' (Some 5) ''a'' (JStr []) = Raise (KeyError ''foo'')
   \<and> render_filename_col simple_lib ''{}'' (Some 5) ''a'' (JStr []) = Raise IndexError
   \<and> render_filename_col simple_lib ''{0}'' (Some 5) ''a'' (JStr []) = Raise IndexError
   \<and> render_filename_col simple_lib ''{stem}}'' (Some 5) ''a'' (JStr []) = Raise ValueError
   \<and> render_filename_col simple_lib ''{foo}{'' (Some 5) ''a'' (JStr []) = Raise (KeyError ''foo'')
   \<and> snd (write_outputs simple_lib
             (default_args\<lparr>filename_col := Some ''filename'', filename_tmpl := ''{foo}''\<rparr>)
             True [blank_item])
       = Aborted (Uncaught (KeyError ''foo''))"
proof -
  note a = filename_renderer [where ps = "[Var ''stem'', Lit ''-{x}.png'']" and L = simple_lib
      and tid = "Some 5" and item_stem = "''a''" and img_raw = "JStr []"]
  note b = filename_renderer [where ps = "[Var ''foo'']" and L = simple_lib
      and tid = "Some 5" and item_stem = "''a''" and img_raw = "JStr []" and brace = "''{''"]
  note c = filename_renderer [where ps = "[Var ''foo'']" and L = simple_lib
      and tid = None and item_stem = "''item''" and img_raw = "JStr []"
      and a = "default_args\<lparr>filename_col := Some ''filename'', filename_tmpl := ''{foo}''\<rparr>"
      and items = "[blank_item]" and folder_mode = True and e = "KeyError ''foo''"]
  note d = filename_renderer [where ps = "[Var []]" and L = simple_lib
      and tid = "Some 5" and item_stem = "''a''" and img_raw = "JStr []"]
  note e = filename_renderer [where ps = "[Var ''0'']" and L = simple_lib
      and tid = "Some 5" and item_stem = "''a''" and img_raw = "JStr []"]
  note f = filename_renderer [where ps = "[Var ''stem'']" and L = simple_lib
      and tid = "Some 5" and item_stem = "''a''" and img_raw = "JStr []" and brace = "''}''"]
  have 1: "render_filename_col simple_lib ''{stem}-{{x}}.png'' (Some 5) ''a'' (JStr [])
           = Done ''a-{x}.png''"
    using a by (simp add: simple_name_def is_digit_def escape_braces_def var_names_def
        var_value_def)
  have 2: "render_filename_col simple_lib ''{foo}'' (Some 5) ''a'' (JStr [])
           = Raise (KeyError ''foo'')"
    using b by (simp add: simple_name_def is_digit_def var_names_def)
  have 3: "render_filename_col simple_lib ''{}'' (Some 5) ''a'' (JStr []) = Raise IndexError"
    using d by (simp add: simple_name_def is_digit_def var_names_def)
  have 4: "render_filename_col simple_lib ''{0}'' (Some 5) ''a'' (JStr []) = Raise IndexError"
    using e by (simp add: simple_name_def is_digit_def var_names_def)
  have 5: "render_filename_col simple_lib ''{stem}}'' (Some 5) ''a'' (JStr []) = Raise ValueError"
    using f by (simp add: simple_name_def is_digit_def var_names_def)
  have 6: "render_filename_col simple_lib ''{foo}{'' (Some 5) ''a'' (JStr [])
           = Raise (KeyError ''foo'')"
    using b by (simp add: simple_name_def is_digit_def var_names_def)
  have 7: "render_filename_col simple_lib ''{foo}'' None ''item'' (JStr [])
           = Raise (KeyError ''foo'')"
    using c by (simp add: simple_name_def is_digit_def var_names_def)
  have 8: "snd (write_outputs simple_lib
             (default_args\<lparr>filename_col := Some ''filename'', filename_tmpl := ''{foo}''\<rparr>)
             True [blank_item])
       = Aborted (Uncaught (KeyError ''foo''))"
    using c 7 by (simp add: filename_col_name_def default_args_def blank_item_def)
  from 1 2 3 4 5 6 8 show ?thesis by (intro conjI)
qed

section \<open>Aggregated documents\<close>

lemma nat_str_nonempty: "nat_str n \<noteq> []"
proof (cases "n < 10")
  case True
  then have "nat_str n = [''0123456789'' ! n]" by (subst nat_str.simps) (simp only: if_True)
  then show ?thesis by (simp only: list.distinct not_False_eq_True)
next
  case False
  then have "nat_str n = nat_str (n div 10) @ [''0123456789'' ! (n mod 10)]"
    by (subst nat_str.simps) (simp only: if_False)
  then show ?thesis by (simp only: append_is_Nil_conv list.distinct simp_thms)
qed

lemma stem_normalize_one: "k \<noteq> [] \<Longrightarrow> stem (normalize_one pfx d k) = k"
  by (simp add: normalize_one_def Let_def)

lemma upt_0_Suc_map: "[0..<Suc n] = 0 # map Suc [0..<n]"
  by (simp add: upt_conv_Cons map_Suc_upt del: upt_Suc)

lemma load_list_stems:
  "map stem (load_list pfx idx xs)
   = map (\<lambda>i. nat_str (idx + i)) (filter (\<lambda>i. is_obj (xs ! i)) [0..<length xs])"
proof (induction xs arbitrary: idx)
  case Nil
  then show ?case by simp
next
  case (Cons x xs)
  have f: "filter (\<lambda>i. is_obj ((x # xs) ! i)) (map Suc [0..<length xs])
           = map Suc (filter (\<lambda>i. is_obj (xs ! i)) [0..<length xs])"
    by (simp add: filter_map comp_def)
  have u: "[0..<length (x # xs)] = 0 # map Suc [0..<length xs]"
    using upt_0_Suc_map[of "length xs"] by simp
  show ?case
  proof (cases "is_obj x")
    case True
    then obtain d where x: "x = JObj d" by (cases x) (simp_all add: is_obj_def)
    show ?thesis
      unfolding u using Cons.IH[of "Suc idx"] True f
      by (simp add: x stem_normalize_one nat_str_nonempty comp_def)
  next
    case False
    then have "load_list pfx idx (x # xs) = load_list pfx (Suc idx) xs"
      by (cases x) (simp_all add: is_obj_def)
    then show ?thesis
      unfolding u using Cons.IH[of "Suc idx"] False f
      by (simp add: comp_def)
  qed
qed

lemma load_list_length: "length (load_list pfx idx xs) = length (filter is_obj xs)"
proof (induction xs arbitrary: idx)
  case Nil
  then show ?case by simp
next
  case (Cons x xs)
  then show ?case by (cases x) (simp_all add: is_obj_def)
qed

lemma load_dict_length: "length (load_dict pfx kvs) = length (filter (\<lambda>kv. is_obj (snd kv)) kvs)"
proof (induction kvs)
  case Nil
  then show ?case by simp
next
  case (Cons kv kvs)
  obtain k v where kv: "kv = (k, v)" by (cases kv)
  from Cons show ?case by (cases v) (simp_all add: kv is_obj_def Let_def)
qed

lemma main_metadata_warned:
  "metadata a = Some (c # cs) \<Longrightarrow> warned (main L a e) = []"
  by (simp add: main_def Let_def split: option.splits sum.splits prod.splits)

text \<open>
  Claim C10. In aggregated mode the entries of a top-level list that are not objects
  are left out: the items are those of the object entries, in order, so there are as
  many as the list has objects, which can be fewer than its length. The stem of each
  item is the decimal form of its position, counted from 1, in the list as it was
  read, so an entry left out leaves a gap in the stems: the list of an object, the
  number 3 and an object gives the stems 1 and 3. The values of a top-level dict that
  are not objects are left out too. No warning is given in this mode.
\<close>

theorem non_objects_dropped:
  "load_metadata_file (Some (JList xs)) pfx = Inr (load_list pfx 1 xs)
   \<and> map stem (load_list pfx 1 xs)
       = map (\<lambda>i. nat_str (Suc i)) (filter (\<lambda>i. is_obj (xs ! i)) [0..<length xs])
   \<and> length (load_list pfx 1 xs) = length (filter is_obj xs)
   \<and> length (load_list pfx 1 xs) \<le> length xs
   \<and> load_metadata_file (Some (JObj kvs)) pfx = Inr (load_dict pfx kvs)
   \<and> length (load_dict pfx kvs) = length (filter (\<lambda>kv. is_obj (snd kv)) kvs)
   \<and> (metadata a = Some (c # cs) \<longrightarrow> warned (main L a e) = [])
   \<and> map stem (load_list pfx 1 [JObj d1, JInt 3, JObj d3]) = [''1'', ''3'']"
proof (intro conjI impI)
  show "load_metadata_file (Some (JList xs)) pfx = Inr (load_list pfx 1 xs)"
    by (simp add: load_metadata_file_def)
  show "map stem (load_list pfx 1 xs)
       = map (\<lambda>i. nat_str (Suc i)) (filter (\<lambda>i. is_obj (xs ! i)) [0..<length xs])"
    using load_list_stems[of pfx 1 xs] by simp
  show "length (load_list pfx 1 xs) = length (filter is_obj xs)"
    by (rule load_list_length)
  show "length (load_list pfx 1 xs) \<le> length xs"
    by (simp add: load_list_length)
  show "load_metadata_file (Some (JObj kvs)) pfx = Inr (load_dict pfx kvs)"
    by (simp add: load_metadata_file_def)
  show "length (load_dict pfx kvs) = length (filter (\<lambda>kv. is_obj (snd kv)) kvs)"
    by (rule load_dict_length)
  show "warned (main L a e) = []" if "metadata a = Some (c # cs)"
    using that by (rule main_metadata_warned)
  have n: "nat_str (Suc 0) = ''1''" "nat_str (Suc (Suc (Suc 0))) = ''3''"
    by (simp_all add: nat_str.simps eval_nat_numeral)
  show "map stem (load_list pfx 1 [JObj d1, JInt 3, JObj d3]) = [''1'', ''3'']"
    by (simp add: stem_normalize_one nat_str_nonempty n)
qed

text \<open>The theorem at a list of four entries whose second and third are no objects,
  at a dict with one object, and at a run over an aggregated file.\<close>

theorem non_objects_dropped_witness:
  "map stem (load_list None 1 [JObj [], JStr ''x'', JNull, JObj []]) = [''1'', ''4'']
   \<and> length (load_list None 1 [JObj [], JStr ''x'', JNull, JObj []]) = 2
   \<and> length (load_dict None [(''a'', JObj []), (''b'', JInt 1)]) = 1
   \<and> warned (main simple_lib (default_args\<lparr>metadata := Some ''m.json''\<rparr>)
               \<lparr>json_dir = [], file_at = (\<lambda>p. Some (Some (JList [JObj [], JInt 3])))\<rparr>) = []"
proof -
  note t = non_objects_dropped [where xs = "[JObj [], JStr ''x'', JNull, JObj []]"
      and pfx = None and kvs = "[(''a'', JObj []), (''b'', JInt 1)]"
      and a = "default_args\<lparr>metadata := Some ''m.json''\<rparr>" and c = "CHR ''m''"
      and cs = "''.json''" and L = simple_lib and ?d1.0 = "[]" and ?d3.0 = "[]"
      and e = "\<lparr>json_dir = [], file_at = (\<lambda>p. Some (Some (JList [JObj [], JInt 3])))\<rparr>"]
  have n: "nat_str (Suc 0) = ''1''" "nat_str (Suc 3) = ''4''"
    by (simp_all add: nat_str.simps)
  have f: "filter (\<lambda>i. is_obj ([JObj [], JStr ''x'', JNull, JObj []] ! i))
             [0..<length [JObj [], JStr ''x'', JNull, JObj []]] = [0, 3]"
    by code_simp
  have g: "length (filter is_obj [JObj [], JStr ''x'', JNull, JObj []]) = 2"
    "length (filter (\<lambda>kv. is_obj (snd kv)) [(''a'', JObj []), (''b'', JInt 1)]) = 1"
    by (simp_all add: is_obj_def)
  have m: "metadata (default_args\<lparr>metadata := Some ''m.json''\<rparr>) = Some (CHR ''m'' # ''.json'')"
    by simp
  from t have "map stem (load_list None 1 [JObj [], JStr ''x'', JNull, JObj []])
      = map (\<lambda>i. nat_str (Suc i))
          (filter (\<lambda>i. is_obj ([JObj [], JStr ''x'', JNull, JObj []] ! i))
             [0..<length [JObj [], JStr ''x'', JNull, JObj []]])"
    by blast
  then have 1: "map stem (load_list None 1 [JObj [], JStr ''x'', JNull, JObj []]) = [''1'', ''4'']"
    by (simp only: f list.map n)
  from t have "length (load_list None 1 [JObj [], JStr ''x'', JNull, JObj []])
      = length (filter is_obj [JObj [], JStr ''x'', JNull, JObj []])"
    by blast
  then have 2: "length (load_list None 1 [JObj [], JStr ''x'', JNull, JObj []]) = 2"
    by (simp only: g)
  from t have "length (load_dict None [(''a'', JObj []), (''b'', JInt 1)])
      = length (filter (\<lambda>kv. is_obj (snd kv)) [(''a'', JObj []), (''b'', JInt 1)])"
    by blast
  then have 3: "length (load_dict None [(''a'', JObj []), (''b'', JInt 1)]) = 1"
    by (simp only: g)
  from t m have 4: "warned (main simple_lib (default_args\<lparr>metadata := Some ''m.json''\<rparr>)
               \<lparr>json_dir = [], file_at = (\<lambda>p. Some (Some (JList [JObj [], JInt 3])))\<rparr>) = []"
    by blast
  from 1 2 3 4 show ?thesis by (intro conjI)
qed

section \<open>Documents that fail to parse\<close>

lemma parse_unreadable: "parse_json_file p_stem None idf pfx = Inl JSONDecodeError"
  by (simp add: parse_json_file_def)

lemma read_folder_append:
  "read_folder idf pfx (xs @ ys) =
     (fst (read_folder idf pfx xs) @ fst (read_folder idf pfx ys),
      snd (read_folder idf pfx xs) @ snd (read_folder idf pfx ys))"
proof (induction xs)
  case Nil
  then show ?case by simp
next
  case (Cons x xs)
  obtain s c where x: "x = (s, c)" by (cases x)
  show ?case
    using Cons.IH by (simp add: x split: sum.splits prod.splits)
qed

lemma read_folder_bad:
  "read_folder idf pfx (pre @ (p_stem, None) # post) =
     (fst (read_folder idf pfx pre) @ p_stem # fst (read_folder idf pfx post),
      snd (read_folder idf pfx (pre @ post)))"
proof -
  have "read_folder idf pfx ((p_stem, None) # post)
        = (p_stem # fst (read_folder idf pfx post), snd (read_folder idf pfx post))"
    by (simp add: parse_unreadable split: prod.splits)
  then show ?thesis
    by (simp add: read_folder_append[of idf pfx pre])
qed

lemma main_folder:
  assumes "metadata a = None \<or> metadata a = Some []" "json_dir e \<noteq> []"
  shows "main L a e =
     \<lparr> warned = fst (read_folder (id_from a) (image_prefix a) (json_dir e)),
       written = fst (write_outputs L a True (snd (read_folder (id_from a) (image_prefix a) (json_dir e)))),
       final = snd (write_outputs L a True (snd (read_folder (id_from a) (image_prefix a) (json_dir e)))) \<rparr>"
  using assms by (auto simp: main_def Let_def split: prod.splits)

text \<open>
  Claim C9. In folder mode a file that cannot be parsed is named in a warning, beside
  the warnings of the other files, and the files written and the end of the run are
  those of the run over the other files of the folder: the file is in no output and its
  siblings are processed. In aggregated mode an input that cannot be parsed ends the
  run with the exception of the parser, with no warning and no file written.
\<close>

theorem parse_failure_by_mode:
  "((metadata a = None \<or> metadata a = Some []) \<and> json_dir e = pre @ (p_stem, None) # post \<longrightarrow>
      warned (main L a e)
        = fst (read_folder (id_from a) (image_prefix a) pre) @ p_stem
          # fst (read_folder (id_from a) (image_prefix a) post)
      \<and> written (main L a e)
        = fst (write_outputs L a True (snd (read_folder (id_from a) (image_prefix a) (pre @ post))))
      \<and> final (main L a e)
        = snd (write_outputs L a True (snd (read_folder (id_from a) (image_prefix a) (pre @ post)))))
   \<and> (metadata a = Some (c # cs) \<and> file_at e (c # cs) = Some None \<longrightarrow>
        main L a e = \<lparr> warned = [], written = [], final = Aborted (Uncaught JSONDecodeError) \<rparr>)"
proof (intro conjI impI)
  assume h: "(metadata a = None \<or> metadata a = Some []) \<and> json_dir e = pre @ (p_stem, None) # post"
  then have ne: "json_dir e \<noteq> []" by simp
  from h have m: "metadata a = None \<or> metadata a = Some []" by simp
  note mf = main_folder[OF m ne, of L]
  from h have rf: "read_folder (id_from a) (image_prefix a) (json_dir e) =
     (fst (read_folder (id_from a) (image_prefix a) pre) @ p_stem
        # fst (read_folder (id_from a) (image_prefix a) post),
      snd (read_folder (id_from a) (image_prefix a) (pre @ post)))"
    by (simp add: read_folder_bad)
  show "warned (main L a e)
        = fst (read_folder (id_from a) (image_prefix a) pre) @ p_stem
          # fst (read_folder (id_from a) (image_prefix a) post)"
    by (simp add: mf rf)
  show "written (main L a e)
        = fst (write_outputs L a True (snd (read_folder (id_from a) (image_prefix a) (pre @ post))))"
    by (simp add: mf rf)
  show "final (main L a e)
        = snd (write_outputs L a True (snd (read_folder (id_from a) (image_prefix a) (pre @ post))))"
    by (simp add: mf rf)
next
  assume "metadata a = Some (c # cs) \<and> file_at e (c # cs) = Some None"
  then show "main L a e = \<lparr> warned = [], written = [], final = Aborted (Uncaught JSONDecodeError) \<rparr>"
    by (simp add: main_def load_metadata_file_def)
qed

text \<open>The theorem at a folder of three files whose second cannot be parsed, and at an
  aggregated file that cannot be parsed.\<close>

theorem parse_failure_by_mode_witness:
  "warned (main simple_lib default_args three_files) = [''bad'']
   \<and> map fst (written (main simple_lib default_args three_files)) = [''csv/1.csv'', ''csv/3.csv'']
   \<and> main simple_lib (default_args\<lparr>metadata := Some ''m.json''\<rparr>) broken_metadata
       = \<lparr> warned = [], written = [], final = Aborted (Uncaught JSONDecodeError) \<rparr>"
proof -
  note t = parse_failure_by_mode [where L = simple_lib and a = default_args and e = three_files
      and pre = "[(''1'', Some (JObj []))]" and p_stem = "''bad''"
      and post = "[(''3'', Some (JObj []))]"]
  note u = parse_failure_by_mode [where L = simple_lib
      and a = "default_args\<lparr>metadata := Some ''m.json''\<rparr>" and e = broken_metadata
      and c = "CHR ''m''" and cs = "''.json''"]
  have h: "(metadata default_args = None \<or> metadata default_args = Some [])
           \<and> json_dir three_files = [(''1'', Some (JObj []))] @ (''bad'', None) # [(''3'', Some (JObj []))]"
    by (simp add: default_args_def three_files_def)
  have k: "metadata (default_args\<lparr>metadata := Some ''m.json''\<rparr>) = Some (CHR ''m'' # ''.json'')
           \<and> file_at broken_metadata (CHR ''m'' # ''.json'') = Some None"
    by (simp add: broken_metadata_def)
  have r1: "fst (read_folder (id_from default_args) (image_prefix default_args)
                  [(''1'', Some (JObj []))]) @ ''bad''
            # fst (read_folder (id_from default_args) (image_prefix default_args)
                  [(''3'', Some (JObj []))]) = [''bad'']"
    by code_simp
  have r2: "map fst (fst (write_outputs simple_lib default_args True
              (snd (read_folder (id_from default_args) (image_prefix default_args)
                     ([(''1'', Some (JObj []))] @ [(''3'', Some (JObj []))])))))
            = [''csv/1.csv'', ''csv/3.csv'']"
    by code_simp
  from t h have "warned (main simple_lib default_args three_files)
        = fst (read_folder (id_from default_args) (image_prefix default_args)
                  [(''1'', Some (JObj []))]) @ ''bad''
            # fst (read_folder (id_from default_args) (image_prefix default_args)
                  [(''3'', Some (JObj []))])"
    by blast
  then have 1: "warned (main simple_lib default_args three_files) = [''bad'']"
    by (simp only: r1)
  from t h have "written (main simple_lib default_args three_files)
        = fst (write_outputs simple_lib default_args True
              (snd (read_folder (id_from default_args) (image_prefix default_args)
                     ([(''1'', Some (JObj []))] @ [(''3'', Some (JObj []))]))))"
    by blast
  then have 2: "map fst (written (main simple_lib default_args three_files))
                = [''csv/1.csv'', ''csv/3.csv'']"
    by (simp only: r2)
  from u k have 3: "main simple_lib (default_args\<lparr>metadata := Some ''m.json''\<rparr>) broken_metadata
       = \<lparr> warned = [], written = [], final = Aborted (Uncaught JSONDecodeError) \<rparr>"
    by blast
  from 1 2 3 show ?thesis by (intro conjI)
qed

section \<open>One header for every file of a batch\<close>

lemma header_length:
  "length (header a items) = length (base_cols a) + fn_cells a + length (all_traits_order items)"
  by (simp add: header_def fn_cells_def split: option.splits)

lemma project_row_cells:
  assumes "project_row L a cols order it = Done r"
  shows "length r = length cols + fn_cells a + length order"
    and "i < length order \<Longrightarrow>
         r ! (length cols + fn_cells a + i) = dict_get_default (traits it) (order ! i) (JStr [])"
proof -
  let ?cells = "map (\<lambda>t. dict_get_default (traits it) t (JStr [])) order"
  let ?row = "map (item_get it) cols"
  have "(fn_cells a = 0 \<and> r = ?row @ ?cells) \<or> (\<exists>fn. fn_cells a = 1 \<and> r = (?row @ [JStr fn]) @ ?cells)"
    using assms
    by (auto simp: project_row_def Let_def fn_cells_def split: option.splits run.splits)
  then show "length r = length cols + fn_cells a + length order"
    and "i < length order \<Longrightarrow>
         r ! (length cols + fn_cells a + i) = dict_get_default (traits it) (order ! i) (JStr [])"
    by (auto simp: nth_append)
qed

lemma write_rows_shape:
  "r \<in> set (fst (write_rows L a cols order its)) \<Longrightarrow>
   \<exists>it\<in>set its. project_row L a cols order it = Done r"
proof (induction its)
  case Nil
  then show ?case by simp
next
  case (Cons it its)
  show ?case
  proof (cases "project_row L a cols order it")
    case (Done row)
    with Cons.prems have "r = row \<or> r \<in> set (fst (write_rows L a cols order its))"
      by (auto split: prod.splits)
    with Done Cons.IH show ?thesis by auto
  next
    case (Raise e)
    with Cons.prems show ?thesis by simp
  next
    case Unmodelled
    with Cons.prems show ?thesis by simp
  qed
qed

lemma write_per_file_done:
  "project_row L a cols order it = Done row \<Longrightarrow>
   fst (write_per_file L a hdr cols order (it # rest))
     = (''csv/'' @ stem it @ ''.csv'', header_rows a hdr @ [row])
       # fst (write_per_file L a hdr cols order rest)"
  by (simp add: Let_def split_beta)

lemma write_per_file_raise_files:
  "project_row L a cols order it = Raise e \<Longrightarrow>
   fst (write_per_file L a hdr cols order (it # rest))
     = [(''csv/'' @ stem it @ ''.csv'', header_rows a hdr)]"
  by (simp add: Let_def)

lemma write_per_file_unmodelled_files:
  "project_row L a cols order it = Unmodelled \<Longrightarrow>
   fst (write_per_file L a hdr cols order (it # rest))
     = [(''csv/'' @ stem it @ ''.csv'', header_rows a hdr)]"
  by (simp add: Let_def)

lemma write_per_file_shape:
  "(p, rows) \<in> set (fst (write_per_file L a hdr cols order its)) \<Longrightarrow>
   \<exists>body. rows = header_rows a hdr @ body
     \<and> (\<forall>r\<in>set body. \<exists>it\<in>set its. project_row L a cols order it = Done r)"
proof (induction its)
  case Nil
  then show ?case by simp
next
  case (Cons it its)
  show ?case
  proof (cases "project_row L a cols order it")
    case (Done row)
    from Cons.prems have "(p, rows) = (''csv/'' @ stem it @ ''.csv'', header_rows a hdr @ [row])
        \<or> (p, rows) \<in> set (fst (write_per_file L a hdr cols order its))"
      unfolding write_per_file_done[OF Done] by simp
    then show ?thesis
    proof
      assume "(p, rows) = (''csv/'' @ stem it @ ''.csv'', header_rows a hdr @ [row])"
      then have "rows = header_rows a hdr @ [row]" by simp
      moreover have "\<forall>r\<in>set [row]. \<exists>i\<in>set (it # its). project_row L a cols order i = Done r"
        using Done by simp
      ultimately show ?thesis by blast
    next
      assume "(p, rows) \<in> set (fst (write_per_file L a hdr cols order its))"
      from Cons.IH[OF this] obtain body where
        "rows = header_rows a hdr @ body"
        "\<forall>r\<in>set body. \<exists>i\<in>set its. project_row L a cols order i = Done r"
        by blast
      then have "rows = header_rows a hdr @ body
        \<and> (\<forall>r\<in>set body. \<exists>i\<in>set (it # its). project_row L a cols order i = Done r)"
        by simp
      then show ?thesis by blast
    qed
  next
    case (Raise e)
    from Cons.prems have "rows = header_rows a hdr @ []"
      unfolding write_per_file_raise_files[OF Raise] by simp
    moreover have "\<forall>r\<in>set ([]::json list list). \<exists>i\<in>set (it # its). project_row L a cols order i = Done r"
      by simp
    ultimately show ?thesis by blast
  next
    case Unmodelled
    from Cons.prems have "rows = header_rows a hdr @ []"
      unfolding write_per_file_unmodelled_files[OF Unmodelled] by simp
    moreover have "\<forall>r\<in>set ([]::json list list). \<exists>i\<in>set (it # its). project_row L a cols order i = Done r"
      by simp
    ultimately show ?thesis by blast
  qed
qed

lemma write_outputs_files:
  "fst (write_outputs L a fm items) =
     fst (per_file_part L a fm items)
     @ (if snd (per_file_part L a fm items) = Finished
        then (case agg_path a fm of
                None \<Rightarrow> []
              | Some path \<Rightarrow>
                  [(path, header_rows a (header a items)
                          @ fst (write_rows L a (base_cols a) (all_traits_order items)
                                   (agg_items a items)))])
        else [])"
  unfolding write_outputs_def per_file_part_def Let_def split_beta
  by (simp split: status.splits option.splits)

lemma set_agg_items: "set (agg_items a items) = set items"
proof -
  have "mset (agg_items a items) = mset items" by (simp add: agg_items_def)
  then show ?thesis by (rule mset_eq_setD)
qed

lemma write_outputs_shape:
  assumes "(p, rows) \<in> set (fst (write_outputs L a fm items))"
  shows "\<exists>body. rows = header_rows a (header a items) @ body
     \<and> (\<forall>r\<in>set body. \<exists>it\<in>set items.
            project_row L a (base_cols a) (all_traits_order items) it = Done r)"
proof -
  let ?ag = "write_rows L a (base_cols a) (all_traits_order items) (agg_items a items)"
  have "(p, rows) \<in> set (fst (per_file_part L a fm items))
      \<or> rows = header_rows a (header a items) @ fst ?ag"
  proof (cases "snd (per_file_part L a fm items) = Finished")
    case True
    show ?thesis
    proof (cases "agg_path a fm")
      case None
      with True assms show ?thesis by (simp add: write_outputs_files)
    next
      case (Some path)
      with True assms show ?thesis by (auto simp: write_outputs_files)
    qed
  next
    case False
    with assms show ?thesis by (simp add: write_outputs_files)
  qed
  then show ?thesis
  proof
    assume "(p, rows) \<in> set (fst (per_file_part L a fm items))"
    then have "(p, rows) \<in> set (fst (write_per_file L a (header a items) (base_cols a)
                                      (all_traits_order items) items))"
      by (simp add: per_file_part_def split: if_splits)
    then show ?thesis by (rule write_per_file_shape)
  next
    assume rows: "rows = header_rows a (header a items) @ fst ?ag"
    have "\<forall>r\<in>set (fst ?ag). \<exists>it\<in>set items.
            project_row L a (base_cols a) (all_traits_order items) it = Done r"
      using write_rows_shape[of _ L a "base_cols a" "all_traits_order items" "agg_items a items"]
      by (simp add: set_agg_items)
    with rows show ?thesis by blast
  qed
qed

lemma written_main:
  "written (main L a e) = []
   \<or> written (main L a e) = fst (write_outputs L a False (batch_of a e))
   \<or> written (main L a e) = fst (write_outputs L a True (batch_of a e))"
proof (cases "metadata a")
  case None
  then show ?thesis
    by (cases "json_dir e = []") (simp_all add: main_def batch_of_def Let_def split_beta)
next
  case (Some m)
  show ?thesis
  proof (cases m)
    case Nil
    with Some show ?thesis
      by (cases "json_dir e = []") (simp_all add: main_def batch_of_def Let_def split_beta)
  next
    case (Cons c cs)
    show ?thesis
    proof (cases "file_at e (c # cs)")
      case None
      with Some Cons show ?thesis by (simp add: main_def)
    next
      case (Some content)
      show ?thesis
      proof (cases "load_metadata_file content (image_prefix a)")
        case (Inl r)
        with Some \<open>metadata a = Some m\<close> Cons show ?thesis by (simp add: main_def)
      next
        case (Inr items)
        with Some \<open>metadata a = Some m\<close> Cons show ?thesis
          by (simp add: main_def batch_of_def Let_def split_beta)
      qed
    qed
  qed
qed

text \<open>
  Claim C1. Every file a run writes, per item or aggregated, is the header rows
  computed from the batch, the same for all files (the header, or nothing under
  \<open>--no-header\<close>), followed by data rows; every data row is the row of an item of the
  batch and has as many cells as the header. The header is the base columns, then the
  filename column if there is one, then the trait columns. In the row of an item the
  cell of a trait column holds the item's value of the trait, and the empty string
  when the item has no such trait; the row is never shorter.
\<close>

theorem uniform_header:
  "(\<forall>(p, rows)\<in>set (written (main L a e)).
      \<exists>body. rows = header_rows a (header a (batch_of a e)) @ body
        \<and> (\<forall>r\<in>set body.
              length r = length (header a (batch_of a e))
              \<and> (\<exists>it\<in>set (batch_of a e).
                    project_row L a (base_cols a) (all_traits_order (batch_of a e)) it = Done r)))
   \<and> header a items
       = base_cols a @ (case filename_col_name a of None \<Rightarrow> [] | Some n \<Rightarrow> [n])
         @ all_traits_order items
   \<and> header_rows a hdr = (if no_header a then [] else [map JStr hdr])
   \<and> (project_row L a cols order it = Done r \<longrightarrow>
        length r = length cols + fn_cells a + length order
        \<and> (\<forall>i<length order.
              r ! (length cols + fn_cells a + i)
                = (case map_of (traits it) (order ! i) of None \<Rightarrow> JStr [] | Some v \<Rightarrow> v)))"
proof (intro conjI impI allI ballI)
  fix x assume x: "x \<in> set (written (main L a e))"
  obtain p rows where pr: "x = (p, rows)" by (cases x)
  from x have ne: "written (main L a e) \<noteq> []" by auto
  with written_main[of L a e] obtain fm where
    w: "written (main L a e) = fst (write_outputs L a fm (batch_of a e))" by blast
  from x pr w have "(p, rows) \<in> set (fst (write_outputs L a fm (batch_of a e)))" by simp
  from write_outputs_shape[OF this] obtain body where
    b: "rows = header_rows a (header a (batch_of a e)) @ body"
    and d: "\<forall>r\<in>set body. \<exists>it\<in>set (batch_of a e).
            project_row L a (base_cols a) (all_traits_order (batch_of a e)) it = Done r"
    by blast
  have "\<forall>r\<in>set body.
              length r = length (header a (batch_of a e))
              \<and> (\<exists>it\<in>set (batch_of a e).
                    project_row L a (base_cols a) (all_traits_order (batch_of a e)) it = Done r)"
  proof
    fix r assume "r \<in> set body"
    with d obtain it where it: "it \<in> set (batch_of a e)"
      "project_row L a (base_cols a) (all_traits_order (batch_of a e)) it = Done r" by blast
    from project_row_cells(1)[OF it(2)] have "length r = length (header a (batch_of a e))"
      by (simp add: header_length)
    with it show "length r = length (header a (batch_of a e))
              \<and> (\<exists>it\<in>set (batch_of a e).
                    project_row L a (base_cols a) (all_traits_order (batch_of a e)) it = Done r)"
      by blast
  qed
  with b show "case x of (p, rows) \<Rightarrow>
      \<exists>body. rows = header_rows a (header a (batch_of a e)) @ body
        \<and> (\<forall>r\<in>set body.
              length r = length (header a (batch_of a e))
              \<and> (\<exists>it\<in>set (batch_of a e).
                    project_row L a (base_cols a) (all_traits_order (batch_of a e)) it = Done r))"
    unfolding pr by simp
next
  show "header a items
       = base_cols a @ (case filename_col_name a of None \<Rightarrow> [] | Some n \<Rightarrow> [n])
         @ all_traits_order items"
    by (simp add: header_def)
  show "header_rows a hdr = (if no_header a then [] else [map JStr hdr])"
    by (simp add: header_rows_def)
next
  assume p: "project_row L a cols order it = Done r"
  show "length r = length cols + fn_cells a + length order"
    by (rule project_row_cells(1)[OF p])
next
  fix i assume p: "project_row L a cols order it = Done r" and i: "i < length order"
  show "r ! (length cols + fn_cells a + i)
                = (case map_of (traits it) (order ! i) of None \<Rightarrow> JStr [] | Some v \<Rightarrow> v)"
    using project_row_cells(2)[OF p i] by (simp add: dict_get_default_def)
qed

text \<open>The theorem at the run over two documents, one with the trait \<open>A\<close> and one with
  the trait \<open>B\<close>, and at the row of the first.\<close>

theorem uniform_header_witness:
  "project_row simple_lib traits_only_args [] [''A'', ''B'']
     (blank_item\<lparr>traits := [(''A'', JStr ''x'')]\<rparr>) = Done [JStr ''x'', JStr []]
   \<and> [JStr ''x'', JStr []] ! (length ([] :: string list) + fn_cells traits_only_args + 1) = JStr []
   \<and> written (main simple_lib traits_only_args two_docs) =
       [(''csv/1.csv'', [[JStr ''A'', JStr ''B''], [JStr ''x'', JStr '''']]),
        (''csv/2.csv'', [[JStr ''A'', JStr ''B''], [JStr '''', JStr ''y'']]),
        (''o.csv'', [[JStr ''A'', JStr ''B''], [JStr ''x'', JStr ''''], [JStr '''', JStr ''y'']])]"
proof -
  note t = uniform_header [where L = simple_lib and a = traits_only_args and e = two_docs
      and cols = "[]" and order = "[''A'', ''B'']"
      and it = "blank_item\<lparr>traits := [(''A'', JStr ''x'')]\<rparr>" and r = "[JStr ''x'', JStr []]"]
  have p: "project_row simple_lib traits_only_args [] [''A'', ''B'']
     (blank_item\<lparr>traits := [(''A'', JStr ''x'')]\<rparr>) = Done [JStr ''x'', JStr []]"
    by code_simp
  have i: "(1::nat) < length [''A'', ''B'']" by simp
  have m: "map_of (traits (blank_item\<lparr>traits := [(''A'', JStr ''x'')]\<rparr>)) ([''A'', ''B''] ! 1) = None"
    by simp
  from t p i have "[JStr ''x'', JStr []] ! (length ([] :: string list) + fn_cells traits_only_args + 1)
      = (case map_of (traits (blank_item\<lparr>traits := [(''A'', JStr ''x'')]\<rparr>)) ([''A'', ''B''] ! 1) of
           None \<Rightarrow> JStr [] | Some v \<Rightarrow> v)"
    by blast
  then have c: "[JStr ''x'', JStr []] ! (length ([] :: string list) + fn_cells traits_only_args + 1)
                = JStr []"
    by (simp only: m option.case)
  have w: "written (main simple_lib traits_only_args two_docs) =
       [(''csv/1.csv'', [[JStr ''A'', JStr ''B''], [JStr ''x'', JStr '''']]),
        (''csv/2.csv'', [[JStr ''A'', JStr ''B''], [JStr '''', JStr ''y'']]),
        (''o.csv'', [[JStr ''A'', JStr ''B''], [JStr ''x'', JStr ''''], [JStr '''', JStr ''y'']])]"
    by code_simp
  from p c w show ?thesis by (intro conjI)
qed

end
